theory Spec2Isabelle
  imports Main "HOL-Library.Multiset"
begin

section \<open>JavaScript strings\<close>

text \<open>
  A JavaScript string is a sequence of UTF-16 code units, each a number from 0 to 65535:
  a code unit is an \<open>int\<close>, and the one place where the source makes a code unit from
  a number (\<open>String.fromCharCode\<close>) reduces it modulo \<open>2^16\<close>. String literals of the
  source are written \<open>js ''...''\<close>. The source only ever spells ASCII in its literals,
  its keyword tables and its regular expressions.
\<close>

type_synonym jschar = int
type_synonym jsstring = "jschar list"

definition js :: "string \<Rightarrow> jsstring" where
  "js s = map of_char s"

text \<open>
  \<open>String.prototype.toLowerCase\<close>, as far as Basic Latin goes. The code units that
  lower-case to Basic Latin are mapped as every runtime maps them: \<open>A-Z\<close> to \<open>a-z\<close>, the
  Kelvin sign U+212A to \<open>k\<close>, and U+0130 to \<open>i\<close> followed by the combining dot U+0307. No
  other code unit lower-cases to Basic Latin, and no Basic Latin code unit lower-cases to
  anything else. The other cased code units go to code units outside Basic Latin again,
  by tables that belong to the runtime and change with its Unicode version: they are left
  as they are. So \<open>toLowerCase s\<close> and the source's lower-cased string have the same
  Basic Latin code units in the same order, and code units from outside Basic Latin
  between the same two of them: an ASCII keyword occurs in the one exactly when it occurs
  in the other. The source's keyword tests (\<open>isRelevant\<close>, \<open>detectCat\<close>) ask for nothing
  more, since every keyword is ASCII. Where the source keeps the lower-cased string
  itself, in the keys that find duplicate titles, the runtime's function is taken from the
  \<open>world\<close> instead.
\<close>

definition lower_units :: "jschar \<Rightarrow> jsstring" where
  "lower_units c =
     (if 65 \<le> c \<and> c \<le> 90 then [c + 32]
      else if c = 8490 then [107]
      else if c = 304 then [105, 775]
      else [c])"

definition toLowerCase :: "jsstring \<Rightarrow> jsstring" where
  "toLowerCase s = concat (map lower_units s)"

text \<open>\<open>s.startsWith(w)\<close> and \<open>s.includes(w)\<close>.\<close>

fun startsWith :: "jsstring \<Rightarrow> jsstring \<Rightarrow> bool" where
  "startsWith s [] = True"
| "startsWith [] (w # ws) = False"
| "startsWith (c # cs) (w # ws) = (if c = w then startsWith cs ws else False)"

fun js_includes :: "jsstring \<Rightarrow> jsstring \<Rightarrow> bool" where
  "js_includes [] w = (w = [])"
| "js_includes (c # cs) w = (if startsWith (c # cs) w then True else js_includes cs w)"

section \<open>part\_000: the relevance filter\<close>

definition FL_WORDS :: "jsstring list" where
  "FL_WORDS = map js [''florida'', ''fl '']"

definition CANNA_WORDS :: "jsstring list" where
  "CANNA_WORDS = map js [''cannabis'', ''marijuana'', ''hemp'', ''mmj'', ''dispensary'',
     ''thc'', ''cbd'', ''weed'', ''edible'', ''cultivation'', ''trulieve'', ''curaleaf'',
     ''surterra'', ''fluent'', ''vidacann'', ''canna'']"

definition isRelevant :: "jsstring \<Rightarrow> jsstring \<Rightarrow> bool" where
  "isRelevant t desc =
     (let text = toLowerCase (t @ js '' '' @ desc);
          hasFL = list_ex (\<lambda>w. js_includes text w) FL_WORDS;
          hasCanna = list_ex (\<lambda>w. js_includes text w) CANNA_WORDS
      in hasFL \<and> hasCanna)"

text \<open>
  White space as \<open>\s\<close> and \<open>String.prototype.trim\<close> see it: TAB, LF, VT, FF, CR, SPACE,
  NBSP, U+1680, U+2000 to U+200A, U+2028, U+2029, U+202F, U+205F, U+3000 and U+FEFF.
\<close>

definition is_space :: "jschar \<Rightarrow> bool" where
  "is_space c \<longleftrightarrow>
     (if c \<le> 160 then (9 \<le> c \<and> c \<le> 13) \<or> c = 32 \<or> c = 160
      else c = 5760 \<or> (8192 \<le> c \<and> c \<le> 8202) \<or> c = 8232 \<or> c = 8233 \<or> c = 8239
        \<or> c = 8287 \<or> c = 12288 \<or> c = 65279)"

definition trim :: "jsstring \<Rightarrow> jsstring" where
  "trim s = rev (dropWhile is_space (rev (dropWhile is_space s)))"

definition is_digit :: "jschar \<Rightarrow> bool" where
  "is_digit c \<longleftrightarrow> 48 \<le> c \<and> c \<le> 57"

definition is_upper :: "jschar \<Rightarrow> bool" where
  "is_upper c \<longleftrightarrow> 65 \<le> c \<and> c \<le> 90"

definition is_lower :: "jschar \<Rightarrow> bool" where
  "is_lower c \<longleftrightarrow> 97 \<le> c \<and> c \<le> 122"

text \<open>The class \<open>[0-9a-f]\<close> under the \<open>i\<close> flag.\<close>

definition is_hex_digit :: "jschar \<Rightarrow> bool" where
  "is_hex_digit c \<longleftrightarrow> is_digit c \<or> (97 \<le> c \<and> c \<le> 102) \<or> (65 \<le> c \<and> c \<le> 70)"

text \<open>The class \<open>\w\<close>: \<open>[A-Za-z0-9_]\<close>.\<close>

definition is_word_char :: "jschar \<Rightarrow> bool" where
  "is_word_char c \<longleftrightarrow> is_upper c \<or> is_lower c \<or> is_digit c \<or> c = 95"

definition any_char :: "jschar \<Rightarrow> bool" where
  "any_char c \<longleftrightarrow> True"

definition not_gt :: "jschar \<Rightarrow> bool" where
  "not_gt c \<longleftrightarrow> c \<noteq> 62"

definition not_lt :: "jschar \<Rightarrow> bool" where
  "not_lt c \<longleftrightarrow> c \<noteq> 60"

definition not_quote :: "jschar \<Rightarrow> bool" where
  "not_quote c \<longleftrightarrow> c \<noteq> 34"

text \<open>The double quote and the apostrophe, which a HOL string literal cannot spell.\<close>

definition dquote :: jsstring where
  "dquote = [34]"

definition apostrophe :: jsstring where
  "apostrophe = [39]"

text \<open>\<open>a || b\<close> on strings: the empty string is the only falsy string.\<close>

definition js_or :: "jsstring \<Rightarrow> jsstring \<Rightarrow> jsstring" where
  "js_or a b = (if a \<noteq> [] then a else b)"

section \<open>Regular expressions\<close>

text \<open>
  The regular expressions of the source use literals, character classes, greedy and lazy
  repetition of one character class, an optional group, alternation and capture groups;
  there are no anchors, look-arounds or back-references. \<open>rx\<close> is that fragment, and
  \<open>rx_match\<close> is the backtracking matcher of ECMAScript on it: at each choice the
  first alternative is tried first and the next one only when the whole rest of the pattern
  fails after it. \<open>Many p\<close> is \<open>p*\<close> (longest first), \<open>Few p\<close> is \<open>p*?\<close>
  (shortest first), \<open>Opt r\<close> is \<open>(?:r)?\<close>, \<open>Grp i r\<close> is the capture group
  numbered \<open>i\<close>, \<open>LitI\<close> is a literal under the \<open>i\<close> flag.
\<close>

text \<open>
  The capture groups of a match in progress: group \<open>i\<close> is kept as the text that was
  left when the group was entered and the text that was left when it was closed; the
  group's text is what lies between.
\<close>

type_synonym caps = "nat \<rightharpoonup> jsstring \<times> jsstring"

datatype rx =
    Eps
  | Lit jsstring
  | LitI jsstring
  | Cls "jschar \<Rightarrow> bool"
  | Many "jschar \<Rightarrow> bool"
  | Few "jschar \<Rightarrow> bool"
  | Opt rx
  | Seq rx rx
  | Alt rx rx
  | Grp nat rx

text \<open>
  Under the \<open>i\<close> flag (without \<open>u\<close>) two code units match when their canonical
  forms agree; a code unit outside ASCII never canonicalises to an ASCII one, so against
  the ASCII literals of the source this is equality up to the case of \<open>a-z\<close>.
\<close>

definition upper_char :: "jschar \<Rightarrow> jschar" where
  "upper_char c = (if 97 \<le> c \<and> c \<le> 122 then c - 32 else c)"

fun startsWithI :: "jsstring \<Rightarrow> jsstring \<Rightarrow> bool" where
  "startsWithI s [] = True"
| "startsWithI [] (w # ws) = False"
| "startsWithI (c # cs) (w # ws) =
     (if upper_char c = upper_char w then startsWithI cs ws else False)"

primrec greedy :: "(jschar \<Rightarrow> bool) \<Rightarrow> jsstring \<Rightarrow> (jsstring \<Rightarrow> 'r option) \<Rightarrow> 'r option" where
  "greedy p [] k = k []"
| "greedy p (x # xs) k =
     (if p x then (case greedy p xs k of Some r \<Rightarrow> Some r | None \<Rightarrow> k (x # xs))
      else k (x # xs))"

primrec lazy :: "(jschar \<Rightarrow> bool) \<Rightarrow> jsstring \<Rightarrow> (jsstring \<Rightarrow> 'r option) \<Rightarrow> 'r option" where
  "lazy p [] k = k []"
| "lazy p (x # xs) k =
     (case k (x # xs) of Some r \<Rightarrow> Some r
      | None \<Rightarrow> if p x then lazy p xs k else None)"

primrec rx_match :: "rx \<Rightarrow> jsstring \<Rightarrow> caps \<Rightarrow> (jsstring \<Rightarrow> caps \<Rightarrow> 'r option) \<Rightarrow> 'r option" where
  "rx_match Eps s c k = k s c"
| "rx_match (Lit l) s c k = (if startsWith s l then k (drop (length l) s) c else None)"
| "rx_match (LitI l) s c k = (if startsWithI s l then k (drop (length l) s) c else None)"
| "rx_match (Cls p) s c k = (case s of [] \<Rightarrow> None | x # xs \<Rightarrow> if p x then k xs c else None)"
| "rx_match (Many p) s c k = greedy p s (\<lambda>s'. k s' c)"
| "rx_match (Few p) s c k = lazy p s (\<lambda>s'. k s' c)"
| "rx_match (Opt r) s c k = (case rx_match r s c k of Some x \<Rightarrow> Some x | None \<Rightarrow> k s c)"
| "rx_match (Seq a b) s c k = rx_match a s c (\<lambda>s' c'. rx_match b s' c' k)"
| "rx_match (Alt a b) s c k =
     (case rx_match a s c k of Some x \<Rightarrow> Some x | None \<Rightarrow> rx_match b s c k)"
| "rx_match (Grp i r) s c k =
     rx_match r s c (\<lambda>s' c'. k s' (c'(i \<mapsto> (s, s'))))"

definition seqs :: "rx list \<Rightarrow> rx" where
  "seqs rs = foldr Seq rs Eps"

text \<open>\<open>Many1 p\<close> is \<open>p+\<close>.\<close>

definition Many1 :: "(jschar \<Rightarrow> bool) \<Rightarrow> rx" where
  "Many1 p = Seq (Cls p) (Many p)"

text \<open>
  A match: the text skipped before it, its capture groups, the matched text and the text
  that remains after it.
\<close>

record rx_found =
  skipped :: jsstring
  groups :: caps
  matched :: jsstring
  remaining :: jsstring

definition match_at :: "rx \<Rightarrow> jsstring \<Rightarrow> rx_found option" where
  "match_at r s = rx_match r s Map.empty
     (\<lambda>s' c'. Some \<lparr>skipped = [], groups = c', matched = take (length s - length s') s,
        remaining = s'\<rparr>)"

text \<open>\<open>s.match(r)\<close> for a regular expression without the \<open>g\<close> flag: the leftmost match.\<close>

primrec search :: "rx \<Rightarrow> jsstring \<Rightarrow> rx_found option" where
  "search r [] = match_at r []"
| "search r (x # xs) =
     (case match_at r (x # xs) of Some m \<Rightarrow> Some m
      | None \<Rightarrow> map_option (\<lambda>m. m\<lparr>skipped := x # skipped m\<rparr>) (search r xs))"

text \<open>\<open>m[i]\<close>; a group that took no part in the match is \<open>undefined\<close>, read here as the
  empty string (the source only tests such a value for truthiness).\<close>

definition grp :: "rx_found \<Rightarrow> nat \<Rightarrow> jsstring" where
  "grp m i = (case groups m i of None \<Rightarrow> [] | Some (s, s') \<Rightarrow> take (length s - length s') s)"

text \<open>\<open>a || b\<close> on match results: \<open>null\<close> is falsy, a match is truthy.\<close>

definition or_match :: "rx_found option \<Rightarrow> rx_found option \<Rightarrow> rx_found option" where
  "or_match a b = (case a of Some m \<Rightarrow> Some m | None \<Rightarrow> b)"

lemma greedy_len: "greedy p s k = Some x \<Longrightarrow> \<exists>s'. length s' \<le> length s \<and> k s' = Some x"
proof (induction s)
  case Nil
  then show ?case by auto
next
  case (Cons a s)
  show ?case
  proof (cases "p a \<and> greedy p s k = Some x")
    case True
    with Cons.IH obtain s' where "length s' \<le> length s" "k s' = Some x" by blast
    then show ?thesis by (intro exI[of _ s']) simp
  next
    case False
    with Cons.prems have "k (a # s) = Some x" by (auto split: if_splits option.splits)
    then show ?thesis by (intro exI[of _ "a # s"]) simp
  qed
qed

lemma lazy_len: "lazy p s k = Some x \<Longrightarrow> \<exists>s'. length s' \<le> length s \<and> k s' = Some x"
proof (induction s)
  case Nil
  then show ?case by auto
next
  case (Cons a s)
  show ?case
  proof (cases "k (a # s) = Some x")
    case True
    then show ?thesis by (intro exI[of _ "a # s"]) simp
  next
    case False
    with Cons.prems have "lazy p s k = Some x" by (auto split: if_splits option.splits)
    with Cons.IH obtain s' where "length s' \<le> length s" "k s' = Some x" by blast
    then show ?thesis by (intro exI[of _ s']) simp
  qed
qed

lemma rx_match_len:
  "rx_match r s c k = Some x \<Longrightarrow> \<exists>s' c'. length s' \<le> length s \<and> k s' c' = Some x"
proof (induction r arbitrary: s c k x)
  case (Seq a b)
  from Seq.prems obtain s1 c1 where 1: "length s1 \<le> length s" "rx_match b s1 c1 k = Some x"
    using Seq.IH(1) by fastforce
  from Seq.IH(2)[OF 1(2)] 1(1) show ?case by (meson le_trans)
next
  case (Many p)
  then show ?case using greedy_len by fastforce
next
  case (Few p)
  then show ?case using lazy_len by fastforce
next
  case (Grp i r)
  from Grp.prems Grp.IH show ?case by fastforce
next
  case (Opt r)
  then show ?case by (fastforce split: option.splits)
next
  case (Alt a b)
  then show ?case by (fastforce split: option.splits)
next
  case (Cls p)
  then show ?case by (auto split: list.splits if_splits intro: le_SucI)
next
  case (Lit l)
  then have "k (drop (length l) s) c = Some x" by (auto split: if_splits)
  then show ?case by (intro exI[of _ "drop (length l) s"] exI[of _ c]) simp
next
  case (LitI l)
  then have "k (drop (length l) s) c = Some x" by (auto split: if_splits)
  then show ?case by (intro exI[of _ "drop (length l) s"] exI[of _ c]) simp
next
  case Eps
  then show ?case by (intro exI[of _ s] exI[of _ c]) simp
qed

lemma match_at_len:
  "match_at r s = Some m \<Longrightarrow> length (remaining m) \<le> length s \<and> skipped m = [] \<and>
     matched m = take (length s - length (remaining m)) s"
  unfolding match_at_def by (drule rx_match_len) auto

lemma search_len:
  "search r s = Some m \<Longrightarrow> length (remaining m) \<le> length s \<and>
     (matched m \<noteq> [] \<longrightarrow> length (remaining m) < length s)"
proof (induction s arbitrary: m)
  case Nil
  then show ?case using match_at_len[of r "[]" m] by auto
next
  case (Cons x xs)
  show ?case
  proof (cases "match_at r (x # xs)")
    case None
    with Cons.prems obtain m' where m': "search r xs = Some m'" "m = m'\<lparr>skipped := x # skipped m'\<rparr>"
      by auto
    from Cons.IH[OF m'(1)] m'(2) show ?thesis by auto
  next
    case (Some m')
    with Cons.prems have "m = m'" by simp
    with match_at_len[OF Some] show ?thesis by auto
  qed
qed

text \<open>
  \<open>s.replace(r, f)\<close> for a regular expression with the \<open>g\<close> flag: every match, left
  to right, is replaced by \<open>f\<close> of its groups; after an empty match the search moves on
  by one code unit. The replacement strings of the source contain no \<open>$\<close>.
\<close>

function replace_g :: "rx \<Rightarrow> (rx_found \<Rightarrow> jsstring) \<Rightarrow> jsstring \<Rightarrow> jsstring" where
  "replace_g r f s =
     (case search r s of
        None \<Rightarrow> s
      | Some m \<Rightarrow> skipped m @ f m @
          (if matched m = [] then (case remaining m of [] \<Rightarrow> [] | x # xs \<Rightarrow> x # replace_g r f xs)
           else replace_g r f (remaining m)))"
  by pat_completeness auto
termination
proof (relation "measure (\<lambda>(r, f, s). length s)", goal_cases)
  case 1
  show ?case by simp
next
  case (2 r f s m x xs)
  then show ?case using search_len[of r s m] by auto
next
  case (3 r f s m)
  then show ?case using search_len[of r s m] by auto
qed

declare replace_g.simps [simp del]

text \<open>\<open>s.replace(/lit/g, 'rep')\<close>.\<close>

definition replace_lit :: "jsstring \<Rightarrow> jsstring \<Rightarrow> jsstring \<Rightarrow> jsstring" where
  "replace_lit l rep s = replace_g (Lit l) (\<lambda>_. rep) s"

text \<open>\<open>/<[^>]+>/g\<close> and \<open>/\s+/g\<close>.\<close>

definition TAG_RE :: rx where
  "TAG_RE = seqs [Lit (js ''<''), Many1 not_gt, Lit (js ''>'')]"

definition SPACES_RE :: rx where
  "SPACES_RE = Many1 is_space"

text \<open>\<open>/<item[^>]*>([\s\S]*?)<\/item>/gi\<close>.\<close>

definition ITEM_RE :: rx where
  "ITEM_RE = seqs [LitI (js ''<item''), Many not_gt, LitI (js ''>''), Grp 1 (Few any_char),
     LitI (js ''</item>'')]"

lemma startsWithI_length: "startsWithI s l \<Longrightarrow> length l \<le> length s"
  by (induction s l rule: startsWithI.induct) (auto split: if_splits)

lemma match_at_LitI_first:
  assumes "match_at (seqs (LitI l # rs)) t = Some m" and "l \<noteq> []"
  shows "matched m \<noteq> []"
proof -
  let ?K = "\<lambda>s' c'. Some \<lparr>skipped = [], groups = c', matched = take (length t - length s') t,
        remaining = s'\<rparr>"
  from assms(1) have sw: "startsWithI t l"
    by (auto simp: match_at_def seqs_def split: if_splits)
  with assms(1) have "rx_match (seqs rs) (drop (length l) t) Map.empty ?K = Some m"
    by (simp add: match_at_def seqs_def)
  from rx_match_len[OF this] obtain s' c' where
    s': "length s' \<le> length (drop (length l) t)" and m: "?K s' c' = Some m" by blast
  from sw assms(2) have "0 < length l" "length l \<le> length t"
    by (auto dest: startsWithI_length)
  with s' have "length s' < length t" by (simp del: length_greater_0_conv)
  then have "take (length t - length s') t \<noteq> []" by (cases t) auto
  with m show ?thesis by auto
qed

lemma search_matched_nonempty:
  assumes "\<And>t m. match_at r t = Some m \<Longrightarrow> matched m \<noteq> []" and "search r s = Some m"
  shows "matched m \<noteq> []"
  using assms(2)
proof (induction s arbitrary: m)
  case Nil
  then show ?case using assms(1)[of "[]"] by simp
next
  case (Cons x xs)
  then show ?case using assms(1)[of "x # xs"] by (auto split: option.splits)
qed

lemma ITEM_RE_consumes:
  assumes "search ITEM_RE s = Some m"
  shows "length (remaining m) < length s"
proof -
  have "matched m' \<noteq> []" if "match_at ITEM_RE t = Some m'" for t m'
    using that unfolding ITEM_RE_def by (rule match_at_LitI_first) (simp add: js_def)
  then have "matched m \<noteq> []" using assms by (rule search_matched_nonempty)
  with search_len[OF assms] show ?thesis by simp
qed

text \<open>
  The loop \<open>while ((m = re.exec(xml)) !== null)\<close> over \<open>ITEM_RE\<close>: each search starts
  where the last match ended. It yields \<open>m[1]\<close> of every match, the item blocks.
\<close>

function itemBlocks :: "jsstring \<Rightarrow> jsstring list" where
  "itemBlocks xml =
     (case search ITEM_RE xml of
        None \<Rightarrow> []
      | Some m \<Rightarrow> grp m 1 # itemBlocks (remaining m))"
  by pat_completeness auto
termination
  by (relation "measure length") (auto dest: ITEM_RE_consumes)

declare itemBlocks.simps [simp del]

section \<open>Numbers and dates\<close>

text \<open>
  \<open>+n\<close> and \<open>parseInt(h, 16)\<close> turn a run of digits into a Number: the double nearest
  to its value (53 significant bits, ties to even). \<open>to_double\<close> gives that double as an
  integer. \<open>String.fromCharCode\<close> keeps the value modulo \<open>2^16\<close>; where the Number is
  Infinity it yields the code unit 0, and so does the model, as \<open>to_double\<close> of a value
  that large is a multiple of \<open>2^16\<close>.
\<close>

function bit_len :: "int \<Rightarrow> nat" where
  "bit_len n = (if n \<le> 0 then 0 else Suc (bit_len (n div 2)))"
  by pat_completeness auto
termination
  by (relation "measure nat") auto

declare bit_len.simps [simp del]

definition to_double :: "int \<Rightarrow> int" where
  "to_double n =
     (if n < 2 ^ 53 then n
      else let e = bit_len n - 53; q = n div 2 ^ e; r = n mod 2 ^ e; h = 2 ^ (e - 1)
           in (if h < r \<or> (r = h \<and> odd q) then q + 1 else q) * 2 ^ e)"

definition digit_val :: "jschar \<Rightarrow> int" where
  "digit_val c =
     (if is_digit c then c - 48
      else if 97 \<le> c \<and> c \<le> 102 then c - 87
      else c - 55)"

definition dec_value :: "jsstring \<Rightarrow> int" where
  "dec_value ds = foldl (\<lambda>a c. 10 * a + digit_val c) 0 ds"

definition hex_value :: "jsstring \<Rightarrow> int" where
  "hex_value hs = foldl (\<lambda>a c. 16 * a + digit_val c) 0 hs"

definition fromCharCode :: "int \<Rightarrow> jsstring" where
  "fromCharCode n = [n mod 65536]"

section \<open>Feeds, articles, payloads and the world outside\<close>

text \<open>
  A configured source. The sources of news.js (second document) have a label and a URL,
  those of part\_000 a name as well, those of news.js (first document) a colour too.
\<close>

record feed =
  label :: jsstring
  url :: jsstring

record named_feed = feed +
  name :: jsstring

record coloured_feed = named_feed +
  color :: jsstring

text \<open>
  An article. \<open>u_pubTimestamp\<close>, \<open>u_source\<close> and \<open>u_sourceLabel\<close> are the fields the
  source spells \<open>_pubTimestamp\<close>, \<open>_source\<close> and \<open>_sourceLabel\<close>. In news.js (first
  document) \<open>pubDate\<close> is the ISO string of a time value, which \<open>new Date\<close> reads back
  as that time value: it is kept as the time value, in milliseconds.
\<close>

record 'd item =
  title :: jsstring
  link :: jsstring
  description :: jsstring
  thumbnail :: jsstring
  pubDate :: 'd

record article_B = "jsstring item" +
  u_pubTimestamp :: int
  u_sourceLabel :: jsstring

record article = article_B +
  u_source :: jsstring

record article_A = "int item" +
  source :: jsstring
  sourceLabel :: jsstring
  sourceColor :: jsstring
  category :: jsstring

record 'a payload =
  ok :: bool
  count :: nat
  fetchedAt :: int
  articles :: "'a list"

record 'a cache_entry =
  data :: "'a payload option"
  ts :: int

text \<open>
  What a request meets outside the program: how each fetch settles (\<open>fetchUrl\<close> of
  part\_000 and \<open>get\<close> of news.js fulfil with a body or reject; \<open>fetch\<close> fulfils with
  \<open>res.ok\<close> and the body, or throws), what the runtime's date parser makes of a string
  (\<open>None\<close> is \<open>NaN\<close>), what the runtime's \<open>String.prototype.toLowerCase\<close> returns for a
  string, and what \<open>Date.now()\<close> reads at each place it is called: at the freshness test,
  while item \<open>i\<close> of the document of a URL is parsed, when the payload is built, and when
  it is stored. Fetches run concurrently, so no order is imposed on the readings.
\<close>

record world =
  fetchUrl :: "jsstring \<Rightarrow> jsstring option"
  https_get :: "jsstring \<Rightarrow> jsstring option"
  fetch :: "jsstring \<Rightarrow> (bool \<times> jsstring) option"
  date_parse :: "jsstring \<Rightarrow> int option"
  lower_case :: "jsstring \<Rightarrow> jsstring"
  now_check :: int
  now_item :: "jsstring \<Rightarrow> nat \<Rightarrow> int"
  now_payload :: int
  now_store :: int

record 'a response =
  status :: nat
  headers :: "(string \<times> string) list"
  body :: "'a payload option"

text \<open>What a call of the handler does: its response, the cache it leaves, the URLs it fetched.\<close>

record 'a reply =
  response :: "'a response"
  cache_after :: "'a cache_entry"
  requested :: "jsstring list"

text \<open>One entry of \<open>Promise.allSettled\<close>, and \<open>r.status === 'fulfilled' ? r.value : []\<close>.\<close>

datatype 'a settled = Fulfilled 'a | Rejected

definition value_or_empty :: "'a list settled \<Rightarrow> 'a list" where
  "value_or_empty r = (case r of Fulfilled v \<Rightarrow> v | Rejected \<Rightarrow> [])"

text \<open>\<open>settled.flatMap(r => r.status === 'fulfilled' ? r.value : [])\<close>.\<close>

definition flatMap_values :: "'a list settled list \<Rightarrow> 'a list" where
  "flatMap_values settled = concat (map value_or_empty settled)"

text \<open>
  \<open>Array.prototype.sort\<close> with a comparator: a stable sort (ECMAScript 2019), here by
  insertion; \<open>x\<close> goes before the first element it does not compare greater than. The
  comparators of the source are differences of two time values, for which every stable
  sort gives the same result.
\<close>

primrec js_insert :: "('a \<Rightarrow> 'a \<Rightarrow> int) \<Rightarrow> 'a \<Rightarrow> 'a list \<Rightarrow> 'a list" where
  "js_insert cmp x [] = [x]"
| "js_insert cmp x (y # ys) = (if cmp x y \<le> 0 then x # y # ys else y # js_insert cmp x ys)"

definition js_sort :: "('a \<Rightarrow> 'a \<Rightarrow> int) \<Rightarrow> 'a list \<Rightarrow> 'a list" where
  "js_sort cmp xs = foldr (js_insert cmp) xs []"

text \<open>
  The callback of the deduplicating \<open>filter\<close> with its set \<open>seen\<close>: an element is kept
  when its key has not been seen, and then the key is added.
\<close>

fun filter_unseen :: "('a \<Rightarrow> jsstring) \<Rightarrow> jsstring set \<Rightarrow> 'a list \<Rightarrow> 'a list" where
  "filter_unseen key seen [] = []"
| "filter_unseen key seen (x # xs) =
     (if key x \<in> seen then filter_unseen key seen xs
      else x # filter_unseen key (insert (key x) seen) xs)"

section \<open>part\_000\<close>

definition CACHE_TTL :: int where
  "CACHE_TTL = 5 * 60 * 1000"

definition SOURCES :: "named_feed list" where
  "SOURCES = [
     \<lparr>label = js ''FL Cannabis'',
      url = js ''https://news.google.com/rss/search?q=florida+cannabis&hl=en-US&gl=US&ceid=US:en'',
      name = js ''Florida Cannabis''\<rparr>,
     \<lparr>label = js ''FL Marijuana'',
      url = js ''https://news.google.com/rss/search?q=florida+marijuana&hl=en-US&gl=US&ceid=US:en'',
      name = js ''Florida Marijuana''\<rparr>,
     \<lparr>label = js ''FL Hemp'',
      url = js ''https://news.google.com/rss/search?q=florida+hemp&hl=en-US&gl=US&ceid=US:en'',
      name = js ''Florida Hemp''\<rparr>,
     \<lparr>label = js ''FL Medical'',
      url = js ''https://news.google.com/rss/search?q=florida+%22medical+marijuana%22&hl=en-US&gl=US&ceid=US:en'',
      name = js ''Florida Medical Marijuana''\<rparr>,
     \<lparr>label = js ''FL Dispensary'',
      url = js ''https://news.google.com/rss/search?q=florida+dispensary+cannabis&hl=en-US&gl=US&ceid=US:en'',
      name = js ''Florida Dispensary''\<rparr>,
     \<lparr>label = js ''FL Law'',
      url = js ''https://news.google.com/rss/search?q=florida+marijuana+law+2025&hl=en-US&gl=US&ceid=US:en'',
      name = js ''Florida MMJ Law''\<rparr>,
     \<lparr>label = js ''FL Business'',
      url = js ''https://news.google.com/rss/search?q=florida+cannabis+business&hl=en-US&gl=US&ceid=US:en'',
      name = js ''Florida Cannabis Business''\<rparr>,
     \<lparr>label = js ''FL THC/CBD'',
      url = js ''https://news.google.com/rss/search?q=florida+thc+OR+cbd+cannabis&hl=en-US&gl=US&ceid=US:en'',
      name = js ''Florida THC CBD''\<rparr>]"

text \<open>\<open>/&#(\d+);/g\<close> and \<open>/&#x([0-9a-f]+);/gi\<close>.\<close>

definition DEC_REF_RE :: rx where
  "DEC_REF_RE = seqs [Lit (js ''&#''), Grp 1 (Many1 is_digit), Lit (js '';'')]"

definition HEX_REF_RE :: rx where
  "HEX_REF_RE = seqs [LitI (js ''&#x''), Grp 1 (Many1 is_hex_digit), LitI (js '';'')]"

definition decodeEntities :: "jsstring \<Rightarrow> jsstring" where
  "decodeEntities s =
     (let s1 = replace_lit (js ''&amp;'') (js ''&'') s;
          s2 = replace_lit (js ''&lt;'') (js ''<'') s1;
          s3 = replace_lit (js ''&gt;'') (js ''>'') s2;
          s4 = replace_lit (js ''&quot;'') dquote s3;
          s5 = replace_lit (js ''&#39;'') apostrophe s4;
          s6 = replace_lit (js ''&apos;'') apostrophe s5;
          s7 = replace_g DEC_REF_RE (\<lambda>m. fromCharCode (to_double (dec_value (grp m 1)))) s6
      in replace_g HEX_REF_RE (\<lambda>m. fromCharCode (to_double (hex_value (grp m 1)))) s7)"

text \<open>
  The two patterns of \<open>getTag\<close> and \<open>getRawTag\<close> for a tag name,
  \<open><tag(?:\s[^>]*)?><!\[CDATA\[([\s\S]*?)\]\]><\/tag>\<close> and
  \<open><tag(?:\s[^>]*)?>([\s\S]*?)<\/tag>\<close>, both under the \<open>i\<close> flag.
\<close>

definition cdata_re :: "jsstring \<Rightarrow> rx" where
  "cdata_re tag = seqs [LitI (js ''<'' @ tag), Opt (Seq (Cls is_space) (Many not_gt)),
     LitI (js ''><![CDATA[''), Grp 1 (Few any_char), LitI (js '']]></'' @ tag @ js ''>'')]"

definition plain_re :: "jsstring \<Rightarrow> rx" where
  "plain_re tag = seqs [LitI (js ''<'' @ tag), Opt (Seq (Cls is_space) (Many not_gt)),
     LitI (js ''>''), Grp 1 (Few any_char), LitI (js ''</'' @ tag @ js ''>'')]"

text \<open>\<open>x.replace(/<[^>]+>/g, ' ').replace(/\s+/g, ' ').trim()\<close>.\<close>

definition strip_markup :: "jsstring \<Rightarrow> jsstring" where
  "strip_markup x =
     trim (replace_g SPACES_RE (\<lambda>_. js '' '') (replace_g TAG_RE (\<lambda>_. js '' '') x))"

definition getTag :: "jsstring \<Rightarrow> jsstring \<Rightarrow> jsstring" where
  "getTag xml tag =
     (case or_match (search (cdata_re tag) xml) (search (plain_re tag) xml) of
        None \<Rightarrow> []
      | Some m \<Rightarrow> decodeEntities (strip_markup (grp m 1)))"

definition getRawTag :: "jsstring \<Rightarrow> jsstring \<Rightarrow> jsstring" where
  "getRawTag xml tag =
     (case or_match (search (cdata_re tag) xml) (search (plain_re tag) xml) of
        None \<Rightarrow> []
      | Some m \<Rightarrow> trim (grp m 1))"

text \<open>
  \<open>/<media:content[^>]+url="([^"]+)"/i\<close>, \<open>/<media:thumbnail[^>]+url="([^"]+)"/i\<close>,
  \<open>/<enclosure[^>]+type="image[^"]*"[^>]+url="([^"]+)"/i\<close> and
  \<open>/<img[^>]+src="([^"]+)"/i\<close>.
\<close>

definition attr_re :: "jsstring \<Rightarrow> jsstring \<Rightarrow> rx" where
  "attr_re tag attr = seqs [LitI (js ''<'' @ tag), Many1 not_gt, LitI (attr @ js ''='' @ dquote),
     Grp 1 (Many1 not_quote), LitI dquote]"

definition ENCLOSURE_IMAGE_RE :: rx where
  "ENCLOSURE_IMAGE_RE = seqs [LitI (js ''<enclosure''), Many1 not_gt,
     LitI (js ''type='' @ dquote @ js ''image''), Many not_quote, LitI dquote, Many1 not_gt,
     LitI (js ''url='' @ dquote), Grp 1 (Many1 not_quote), LitI dquote]"

definition getThumbnail :: "jsstring \<Rightarrow> jsstring \<Rightarrow> jsstring" where
  "getThumbnail itemXml rawDesc =
     (case search (attr_re (js ''media:content'') (js ''url'')) itemXml of Some m \<Rightarrow> grp m 1
      | None \<Rightarrow>
     (case search (attr_re (js ''media:thumbnail'') (js ''url'')) itemXml of Some m \<Rightarrow> grp m 1
      | None \<Rightarrow>
     (case search ENCLOSURE_IMAGE_RE itemXml of Some m \<Rightarrow> grp m 1
      | None \<Rightarrow>
     (case search (attr_re (js ''img'') (js ''src'')) rawDesc of Some m \<Rightarrow> grp m 1
      | None \<Rightarrow> []))))"

text \<open>
  The body of the loop of \<open>parseRSS\<close> for one item block \<open>b\<close>: \<open>None\<close> is \<open>continue\<close>,
  \<open>Some\<close> is the article pushed. \<open>now\<close> is the reading of \<open>Date.now()\<close> for this item (the
  body reads the clock at most once: for an empty date, or else for one that does not parse).
\<close>

definition parseItem :: "(jsstring \<Rightarrow> int option) \<Rightarrow> int \<Rightarrow> jsstring \<Rightarrow> named_feed \<Rightarrow> article option" where
  "parseItem dateParse now b src =
     (let title = getTag b (js ''title'');
          link = js_or (getTag b (js ''link'')) (js_or (getTag b (js ''guid'')) [])
      in if title = [] \<or> link = [] \<or> \<not> startsWith link (js ''http'') then None
      else
        let rawDesc = getRawTag b (js ''description'');
            desc = take 280 (strip_markup rawDesc);
            pubDate = js_or (getTag b (js ''pubDate'')) (js_or (getTag b (js ''dc:date'')) []);
            ts = (if pubDate \<noteq> [] then dateParse pubDate else Some now);
            thumb = getThumbnail b rawDesc
        in if \<not> isRelevant title desc then None
        else Some \<lparr>title = title, link = link, description = desc,
               thumbnail = (if startsWith thumb (js ''http'') then thumb else []),
               pubDate = pubDate,
               u_pubTimestamp = (case ts of None \<Rightarrow> now | Some t \<Rightarrow> t),
               u_sourceLabel = label src, u_source = name src\<rparr>)"

definition parseRSS :: "(jsstring \<Rightarrow> int option) \<Rightarrow> (nat \<Rightarrow> int) \<Rightarrow> jsstring \<Rightarrow> named_feed \<Rightarrow> article list" where
  "parseRSS dateParse clock xml src =
     List.map_filter (\<lambda>(i, b). parseItem dateParse (clock i) b src) (enumerate 0 (itemBlocks xml))"

text \<open>
  \<open>item.title.slice(0, 65).toLowerCase().replace(/[^a-z0-9]/g, '')\<close>, and \<open>dedup\<close>;
  \<open>lower\<close> is the runtime's \<open>toLowerCase\<close>.
\<close>

definition dedup_key :: "(jsstring \<Rightarrow> jsstring) \<Rightarrow> jsstring \<Rightarrow> jsstring" where
  "dedup_key lower t =
     replace_g (Cls (\<lambda>c. \<not> (is_lower c \<or> is_digit c))) (\<lambda>_. []) (lower (take 65 t))"

definition dedup :: "(jsstring \<Rightarrow> jsstring) \<Rightarrow> article list \<Rightarrow> article list" where
  "dedup lower items = filter_unseen (\<lambda>item. dedup_key lower (title item)) {} items"

text \<open>
  The rebuild of the handler: every source is fetched and parsed (\<open>gatherAll\<close>), the
  settled results are flattened and deduplicated, and the kept articles are sorted by
  \<open>b._pubTimestamp - a._pubTimestamp\<close> and cut to 120 (\<open>ranked\<close>).
\<close>

definition gatherAll :: "world \<Rightarrow> article list settled list" where
  "gatherAll w = map (\<lambda>s. case fetchUrl w (url s) of
        None \<Rightarrow> Rejected
      | Some xml \<Rightarrow> Fulfilled (parseRSS (date_parse w) (now_item w (url s)) xml s)) SOURCES"

definition ranked :: "article list \<Rightarrow> article list" where
  "ranked kept = take 120 (js_sort (\<lambda>a b. u_pubTimestamp b - u_pubTimestamp a) kept)"

definition rebuild :: "world \<Rightarrow> article list" where
  "rebuild w = ranked (dedup (lower_case w) (flatMap_values (gatherAll w)))"

definition cors_headers :: "(string \<times> string) list" where
  "cors_headers = [(''Access-Control-Allow-Origin'', ''*''),
     (''Access-Control-Allow-Methods'', ''GET, OPTIONS'')]"

definition cache_control :: "string \<times> string" where
  "cache_control = (''Cache-Control'', ''public, s-maxage=300, stale-while-revalidate=60'')"

definition handler :: "world \<Rightarrow> jsstring \<Rightarrow> article cache_entry \<Rightarrow> article reply" where
  "handler w method cache =
     (if method = js ''OPTIONS''
      then \<lparr>response = \<lparr>status = 204, headers = cors_headers, body = None\<rparr>,
            cache_after = cache, requested = []\<rparr>
      else if data cache \<noteq> None \<and> now_check w - ts cache < CACHE_TTL
      then \<lparr>response = \<lparr>status = 200,
              headers = cors_headers @ [(''X-Cache'', ''HIT''), cache_control],
              body = data cache\<rparr>,
            cache_after = cache, requested = []\<rparr>
      else
        let articles = rebuild w;
            payload = \<lparr>ok = True, count = length articles, fetchedAt = now_payload w,
                       articles = articles\<rparr>
        in \<lparr>response = \<lparr>status = 200,
               headers = cors_headers @ [(''X-Cache'', ''MISS''), cache_control],
               body = Some payload\<rparr>,
             cache_after = \<lparr>data = Some payload, ts = now_store w\<rparr>,
             requested = map url SOURCES\<rparr>)"

section \<open>news.js, second document\<close>

text \<open>
  The second document of news.js has the constant \<open>CACHE_TTL\<close> of part\_000 (five
  minutes). Its names that part\_000 also uses carry the suffix \<open>_B\<close>.
\<close>

definition SOURCES_B :: "feed list" where
  "SOURCES_B = [
     \<lparr>label = js ''FL Cannabis'',
      url = js ''https://news.google.com/rss/search?q=florida+cannabis&hl=en-US&gl=US&ceid=US:en''\<rparr>,
     \<lparr>label = js ''FL Marijuana'',
      url = js ''https://news.google.com/rss/search?q=florida+marijuana&hl=en-US&gl=US&ceid=US:en''\<rparr>,
     \<lparr>label = js ''FL Hemp'',
      url = js ''https://news.google.com/rss/search?q=florida+hemp&hl=en-US&gl=US&ceid=US:en''\<rparr>,
     \<lparr>label = js ''FL Medical'',
      url = js ''https://news.google.com/rss/search?q=florida+%22medical+marijuana%22&hl=en-US&gl=US&ceid=US:en''\<rparr>,
     \<lparr>label = js ''FL Dispensary'',
      url = js ''https://news.google.com/rss/search?q=florida+dispensary+marijuana&hl=en-US&gl=US&ceid=US:en''\<rparr>]"

definition unescape :: "jsstring \<Rightarrow> jsstring" where
  "unescape s =
     (let s1 = replace_lit (js ''&amp;'') (js ''&'') s;
          s2 = replace_lit (js ''&lt;'') (js ''<'') s1;
          s3 = replace_lit (js ''&gt;'') (js ''>'') s2;
          s4 = replace_lit (js ''&quot;'') dquote s3;
          s5 = replace_lit (js ''&#39;'') apostrophe s4
      in replace_g DEC_REF_RE (\<lambda>m. fromCharCode (to_double (dec_value (grp m 1)))) s5)"

text \<open>
  The two patterns of \<open>tag\<close>, \<open><name[^>]*><!\[CDATA\[([\s\S]*?)\]\]>\<close> and
  \<open><name[^>]*>([\s\S]*?)<\/name>\<close>, under the \<open>i\<close> flag.
\<close>

definition cdata_re_B :: "jsstring \<Rightarrow> rx" where
  "cdata_re_B nm = seqs [LitI (js ''<'' @ nm), Many not_gt, LitI (js ''><![CDATA[''),
     Grp 1 (Few any_char), LitI (js '']]>'')]"

definition plain_re_B :: "jsstring \<Rightarrow> rx" where
  "plain_re_B nm = seqs [LitI (js ''<'' @ nm), Many not_gt, LitI (js ''>''),
     Grp 1 (Few any_char), LitI (js ''</'' @ nm @ js ''>'')]"

definition tag :: "jsstring \<Rightarrow> jsstring \<Rightarrow> jsstring" where
  "tag xml nm =
     (case or_match (search (cdata_re_B nm) xml) (search (plain_re_B nm) xml) of
        None \<Rightarrow> []
      | Some m \<Rightarrow> unescape (strip_markup (grp m 1)))"

text \<open>\<open>/<link>([^<]+)<\/link>/\<close>, without the \<open>i\<close> flag.\<close>

definition LINK_RE :: rx where
  "LINK_RE = seqs [Lit (js ''<link>''), Grp 1 (Many1 not_lt), Lit (js ''</link>'')]"

text \<open>The body of the loop of \<open>parseItems\<close> for one item block.\<close>

definition parseItem_B :: "(jsstring \<Rightarrow> int option) \<Rightarrow> int \<Rightarrow> jsstring \<Rightarrow> jsstring \<Rightarrow> article_B option" where
  "parseItem_B dateParse now b lbl =
     (let title = tag b (js ''title'');
          linkMatch = or_match (search LINK_RE b) (search (attr_re (js ''link'') (js ''href'')) b);
          link = (case linkMatch of Some m \<Rightarrow> unescape (trim (grp m 1)) | None \<Rightarrow> [])
      in if title = [] \<or> link = [] then None
      else
        let pubDate = js_or (tag b (js ''pubDate'')) (js_or (tag b (js ''dc:date'')) []);
            ts = (if pubDate \<noteq> [] then dateParse pubDate else Some now);
            mc = search (attr_re (js ''media:content'') (js ''url'')) b;
            mt = search (attr_re (js ''media:thumbnail'') (js ''url'')) b;
            enc = search (attr_re (js ''enclosure'') (js ''url'')) b;
            rawDesc = search (plain_re_B (js ''description'')) b;
            imgInDesc = (case rawDesc of None \<Rightarrow> None
                         | Some r \<Rightarrow> search (attr_re (js ''img'') (js ''src'')) (grp r 1));
            thumb = (case mc of Some m \<Rightarrow> grp m 1 | None \<Rightarrow>
                    (case mt of Some m \<Rightarrow> grp m 1 | None \<Rightarrow>
                    (case enc of Some m \<Rightarrow> grp m 1 | None \<Rightarrow>
                    (case imgInDesc of Some m \<Rightarrow> grp m 1 | None \<Rightarrow> []))));
            desc = (case rawDesc of Some r \<Rightarrow> take 260 (unescape (strip_markup (grp r 1)))
                    | None \<Rightarrow> [])
        in Some \<lparr>title = title, link = link, description = desc,
               thumbnail = (if startsWith thumb (js ''http'') then thumb else []),
               pubDate = pubDate,
               u_pubTimestamp = (case ts of None \<Rightarrow> now | Some t \<Rightarrow> t),
               u_sourceLabel = lbl\<rparr>)"

definition parseItems :: "(jsstring \<Rightarrow> int option) \<Rightarrow> (nat \<Rightarrow> int) \<Rightarrow> jsstring \<Rightarrow> jsstring \<Rightarrow> article_B list" where
  "parseItems dateParse clock xml lbl =
     List.map_filter (\<lambda>(i, b). parseItem_B dateParse (clock i) b lbl) (enumerate 0 (itemBlocks xml))"

text \<open>
  \<open>a.title.slice(0, 60).toLowerCase().replace(/\W/g, '')\<close>; \<open>lower\<close> is the runtime's
  \<open>toLowerCase\<close>.
\<close>

definition dedup_key_B :: "(jsstring \<Rightarrow> jsstring) \<Rightarrow> jsstring \<Rightarrow> jsstring" where
  "dedup_key_B lower t =
     replace_g (Cls (\<lambda>c. \<not> is_word_char c)) (\<lambda>_. []) (lower (take 60 t))"

definition gatherAll_B :: "world \<Rightarrow> article_B list settled list" where
  "gatherAll_B w = map (\<lambda>s. case https_get w (url s) of
        None \<Rightarrow> Rejected
      | Some xml \<Rightarrow> Fulfilled (parseItems (date_parse w) (now_item w (url s)) xml (label s))) SOURCES_B"

definition dedup_B :: "(jsstring \<Rightarrow> jsstring) \<Rightarrow> article_B list \<Rightarrow> article_B list" where
  "dedup_B lower raw = filter_unseen (\<lambda>a. dedup_key_B lower (title a)) {} raw"

definition ranked_B :: "article_B list \<Rightarrow> article_B list" where
  "ranked_B kept = take 100 (js_sort (\<lambda>a b. u_pubTimestamp b - u_pubTimestamp a) kept)"

definition rebuild_B :: "world \<Rightarrow> article_B list" where
  "rebuild_B w = ranked_B (dedup_B (lower_case w) (flatMap_values (gatherAll_B w)))"

definition handler_B :: "world \<Rightarrow> jsstring \<Rightarrow> article_B cache_entry \<Rightarrow> article_B reply" where
  "handler_B w method cache =
     (if method = js ''OPTIONS''
      then \<lparr>response = \<lparr>status = 204, headers = cors_headers, body = None\<rparr>,
            cache_after = cache, requested = []\<rparr>
      else if data cache \<noteq> None \<and> now_check w - ts cache < CACHE_TTL
      then \<lparr>response = \<lparr>status = 200,
              headers = cors_headers @ [(''X-Cache'', ''HIT''), cache_control],
              body = data cache\<rparr>,
            cache_after = cache, requested = []\<rparr>
      else
        let articles = rebuild_B w;
            payload = \<lparr>ok = True, count = length articles, fetchedAt = now_payload w,
                       articles = articles\<rparr>
        in \<lparr>response = \<lparr>status = 200,
               headers = cors_headers @ [(''X-Cache'', ''MISS''), cache_control],
               body = Some payload\<rparr>,
             cache_after = (if 0 < length articles then \<lparr>data = Some payload, ts = now_store w\<rparr>
                            else cache),
             requested = map url SOURCES_B\<rparr>)"

section \<open>news.js, first document\<close>

text \<open>Its names that part\_000 also uses carry the suffix \<open>_A\<close>.\<close>

definition SOURCES_A :: "coloured_feed list" where
  "SOURCES_A = [
     \<lparr>label = js ''MJMoment'', url = js ''https://www.marijuanamoment.net/feed/'',
      name = js ''Marijuana Moment'', color = js ''#4ab45a''\<rparr>,
     \<lparr>label = js ''Leafly'', url = js ''https://www.leafly.com/news/rss.xml'',
      name = js ''Leafly News'', color = js ''#71bf44''\<rparr>,
     \<lparr>label = js ''CBT'', url = js ''https://www.cannabisbusinesstimes.com/rss'',
      name = js ''Cannabis Business Times'', color = js ''#c8a84b''\<rparr>,
     \<lparr>label = js ''FL Cannabis'',
      url = js ''https://news.google.com/rss/search?q=florida+cannabis+marijuana&hl=en-US&gl=US&ceid=US:en'',
      name = js ''FL Cannabis News'', color = js ''#5096dc''\<rparr>,
     \<lparr>label = js ''FL Dispensary'',
      url = js ''https://news.google.com/rss/search?q=florida+dispensary+medical+marijuana&hl=en-US&gl=US&ceid=US:en'',
      name = js ''FL Dispensary News'', color = js ''#a050dc''\<rparr>,
     \<lparr>label = js ''FL Policy'',
      url = js ''https://news.google.com/rss/search?q=florida+marijuana+law+policy+2025&hl=en-US&gl=US&ceid=US:en'',
      name = js ''FL Policy News'', color = js ''#e05252''\<rparr>]"

definition CATS :: "(jsstring \<times> jsstring list) list" where
  "CATS = [
     (js ''policy'', map js [''law'', ''bill'', ''senate'', ''house'', ''vote'', ''election'',
        ''amendment'', ''regulation'', ''ban'', ''legal'', ''policy'', ''legislature'', ''governor'',
        ''tallahassee'', ''ballot'', ''court'', ''arrest'', ''decrim'']),
     (js ''medical'', map js [''medical'', ''patient'', ''prescription'', ''doctor'', ''treatment'',
        ''thc'', ''cbd'', ''health'', ''clinical'', ''mmj'', ''qualifying'', ''pain'', ''ptsd'',
        ''cancer'', ''anxiety'', ''epilepsy'']),
     (js ''business'', map js [''million'', ''revenue'', ''market'', ''invest'', ''stock'',
        ''acquisition'', ''ceo'', ''company'', ''industry'', ''profit'', ''earn'', ''funding'',
        ''deal'', ''valuation'', ''expansion'', ''license'']),
     (js ''dispensary'', map js [''dispensary'', ''store'', ''shop'', ''retail'', ''menu'',
        ''trulieve'', ''curaleaf'', ''surterra'', ''liberty'', ''green thumb'', ''location'',
        ''open'', ''purchase'', ''buy'']),
     (js ''lifestyle'', map js [''recipe'', ''food'', ''strain'', ''review'', ''product'',
        ''terpene'', ''edible'', ''vape'', ''flower'', ''culture'', ''lifestyle'', ''wellness'',
        ''sleep'', ''smoke'', ''grow''])]"

definition detectCat :: "jsstring \<Rightarrow> jsstring \<Rightarrow> jsstring" where
  "detectCat t desc =
     (let text = toLowerCase (t @ js '' '' @ desc)
      in case find (\<lambda>(c, kws). list_ex (\<lambda>k. js_includes text k) kws) CATS of
           Some (c, kws) \<Rightarrow> c
         | None \<Rightarrow> js ''general'')"

text \<open>The last replacement of \<open>decode\<close> yields the ellipsis U+2026.\<close>

definition decode :: "jsstring \<Rightarrow> jsstring" where
  "decode s =
     (let s1 = replace_lit (js ''&amp;'') (js ''&'') s;
          s2 = replace_lit (js ''&lt;'') (js ''<'') s1;
          s3 = replace_lit (js ''&gt;'') (js ''>'') s2;
          s4 = replace_lit (js ''&quot;'') dquote s3;
          s5 = replace_lit (js ''&#039;'') apostrophe s4;
          s6 = replace_lit (js ''&#8217;'') apostrophe s5;
          s7 = replace_lit (js ''&#8220;'') dquote s6;
          s8 = replace_lit (js ''&#8221;'') dquote s7
      in replace_lit (js ''&#8230;'') [8230] s8)"

text \<open>
  The pattern of \<open>get\<close>,
  \<open><tag[^>]*><!\[CDATA\[([\s\S]*?)\]\]><\/tag>|<tag[^>]*>([\s\S]*?)<\/tag>\<close>, and the
  pattern of \<open>gattr\<close>, \<open><tag[^>]*attr="([^"]*)"\<close>, under the \<open>i\<close> flag.
\<close>

definition get_re :: "jsstring \<Rightarrow> rx" where
  "get_re tg = Alt
     (seqs [LitI (js ''<'' @ tg), Many not_gt, LitI (js ''><![CDATA[''), Grp 1 (Few any_char),
        LitI (js '']]></'' @ tg @ js ''>'')])
     (seqs [LitI (js ''<'' @ tg), Many not_gt, LitI (js ''>''), Grp 2 (Few any_char),
        LitI (js ''</'' @ tg @ js ''>'')])"

definition gattr_re :: "jsstring \<Rightarrow> jsstring \<Rightarrow> rx" where
  "gattr_re tg attr = seqs [LitI (js ''<'' @ tg), Many not_gt, LitI (attr @ js ''='' @ dquote),
     Grp 1 (Many not_quote), LitI dquote]"

definition get :: "jsstring \<Rightarrow> jsstring \<Rightarrow> jsstring" where
  "get b tg =
     (case search (get_re tg) b of
        Some x \<Rightarrow> trim (js_or (grp x 1) (js_or (grp x 2) []))
      | None \<Rightarrow> [])"

definition gattr :: "jsstring \<Rightarrow> jsstring \<Rightarrow> jsstring \<Rightarrow> jsstring" where
  "gattr b tg attr = (case search (gattr_re tg attr) b of Some x \<Rightarrow> grp x 1 | None \<Rightarrow> [])"

text \<open>
  The body of the loop of \<open>parseRSS\<close> for one item block. \<open>d\<close> is the time value of
  the date (\<open>None\<close> for an invalid date, which \<open>isNaN(d)\<close> detects).
\<close>

definition parseItem_A :: "(jsstring \<Rightarrow> int option) \<Rightarrow> int \<Rightarrow> jsstring \<Rightarrow> coloured_feed \<Rightarrow> article_A option" where
  "parseItem_A dateParse now b src =
     (let title = get b (js ''title'');
          link = js_or (get b (js ''link'')) (gattr b (js ''link'') (js ''href''))
      in if title = [] \<or> link = [] then None
      else
        let pubDate = js_or (get b (js ''pubDate''))
                        (js_or (get b (js ''dc:date'')) (get b (js ''published'')));
            d = (if pubDate \<noteq> [] then dateParse pubDate else Some now)
        in case d of
             None \<Rightarrow> None
           | Some t \<Rightarrow>
               let rawDesc = take 300 (trim (replace_g TAG_RE (\<lambda>_. []) (get b (js ''description''))));
                   thumb = js_or (gattr b (js ''media:thumbnail'') (js ''url''))
                             (js_or (gattr b (js ''media:content'') (js ''url''))
                                (js_or (gattr b (js ''enclosure'') (js ''url'')) []))
               in Some \<lparr>title = decode title, link = link, description = decode rawDesc,
                      thumbnail = thumb, pubDate = t, source = name src,
                      sourceLabel = label src, sourceColor = color src,
                      category = detectCat title rawDesc\<rparr>)"

definition parseRSS_A :: "(jsstring \<Rightarrow> int option) \<Rightarrow> (nat \<Rightarrow> int) \<Rightarrow> jsstring \<Rightarrow> coloured_feed \<Rightarrow> article_A list" where
  "parseRSS_A dateParse clock xml src =
     List.map_filter (\<lambda>(i, b). parseItem_A dateParse (clock i) b src) (enumerate 0 (itemBlocks xml))"

text \<open>
  \<open>fetchSource\<close> catches every exception and answers \<open>[]\<close>, as it does for a response
  that is not \<open>ok\<close>.
\<close>

definition fetchSource :: "world \<Rightarrow> coloured_feed \<Rightarrow> article_A list" where
  "fetchSource w src =
     (case fetch w (url src) of
        None \<Rightarrow> []
      | Some (res_ok, text) \<Rightarrow>
          if \<not> res_ok then []
          else parseRSS_A (date_parse w) (now_item w (url src)) text src)"

definition gatherAll_A :: "world \<Rightarrow> article_A list settled list" where
  "gatherAll_A w = map (\<lambda>s. Fulfilled (fetchSource w s)) SOURCES_A"

text \<open>
  \<open>a.title.slice(0, 70).toLowerCase().replace(/\s+/g, '')\<close>, and the loop that uses it;
  \<open>lower\<close> is the runtime's \<open>toLowerCase\<close>.
\<close>

definition dedup_key_A :: "(jsstring \<Rightarrow> jsstring) \<Rightarrow> jsstring \<Rightarrow> jsstring" where
  "dedup_key_A lower t = replace_g SPACES_RE (\<lambda>_. []) (lower (take 70 t))"

fun dedup_loop_A ::
  "(jsstring \<Rightarrow> jsstring) \<Rightarrow> jsstring set \<Rightarrow> article_A list \<Rightarrow> article_A list" where
  "dedup_loop_A lower seen [] = []"
| "dedup_loop_A lower seen (a # as) =
     (if title a = [] \<or> link a = [] then dedup_loop_A lower seen as
      else let k = dedup_key_A lower (title a)
           in if k \<in> seen then dedup_loop_A lower seen as
              else a # dedup_loop_A lower (insert k seen) as)"

definition ranked_A :: "article_A list \<Rightarrow> article_A list" where
  "ranked_A kept = js_sort (\<lambda>a b. pubDate b - pubDate a) kept"

definition rebuild_A :: "world \<Rightarrow> article_A list" where
  "rebuild_A w = ranked_A (dedup_loop_A (lower_case w) {} (flatMap_values (gatherAll_A w)))"

text \<open>
  The handler has no cache. Nothing in its \<open>try\<close> block throws (\<open>fetchSource\<close> never
  rejects), so the \<open>catch\<close> branch with its 500 response is never taken.
\<close>

definition handler_A :: "world \<Rightarrow> jsstring \<Rightarrow> article_A response" where
  "handler_A w method =
     (let h = [(''Access-Control-Allow-Origin'', ''*''),
               (''Access-Control-Allow-Methods'', ''GET,OPTIONS'')]
      in if method = js ''OPTIONS'' then \<lparr>status = 200, headers = h, body = None\<rparr>
         else
           let articles = rebuild_A w
           in \<lparr>status = 200,
                headers = h @ [(''Cache-Control'', ''s-maxage=600, stale-while-revalidate=60'')],
                body = Some \<lparr>ok = True, count = length articles, fetchedAt = now_payload w,
                         articles = articles\<rparr>\<rparr>)"

section \<open>Sample inputs\<close>

text \<open>
  A world in which every fetch fails and no date parses, at time 300000, whose
  \<open>toLowerCase\<close> is the one above (the sample titles are ASCII); an empty cache
  and a cache that holds one article, stored at time 0; a family of articles with pairwise
  different titles; an article of part\_000 and one of news.js (first document) with a
  given title; a source of part\_000 and one of news.js (first document); three item
  blocks, and the document that holds one item block.
\<close>

definition outage :: world where
  "outage = \<lparr>fetchUrl = Map.empty, https_get = Map.empty, fetch = Map.empty,
     date_parse = Map.empty, lower_case = toLowerCase, now_check = 300000,
     now_item = (\<lambda>u i. 300000), now_payload = 300000, now_store = 300000\<rparr>"

definition empty_cache :: "'a cache_entry" where
  "empty_cache = \<lparr>data = None, ts = 0\<rparr>"

definition numbered_A :: "nat \<Rightarrow> article_A" where
  "numbered_A i = \<lparr>title = [97 + int (i div 11), 97 + int (i mod 11)], link = js ''http://x'',
     description = [], thumbnail = [], pubDate = 0, source = [], sourceLabel = [],
     sourceColor = [], category = js ''general''\<rparr>"

definition one_article :: article where
  "one_article = \<lparr>title = js ''Florida hemp bill'', link = js ''http://example.org/a'',
     description = [], thumbnail = [], pubDate = [], u_pubTimestamp = 0,
     u_sourceLabel = js ''FL Hemp'', u_source = js ''Florida Hemp''\<rparr>"

definition good_cache :: "article cache_entry" where
  "good_cache = \<lparr>data = Some \<lparr>ok = True, count = 1, fetchedAt = 0, articles = [one_article]\<rparr>,
     ts = 0\<rparr>"

definition titled :: "jsstring \<Rightarrow> article" where
  "titled t = \<lparr>title = t, link = js ''http://example.org/a'',
     description = [], thumbnail = [], pubDate = [], u_pubTimestamp = 0,
     u_sourceLabel = js ''FL Hemp'', u_source = js ''Florida Hemp''\<rparr>"

definition titled_A :: "jsstring \<Rightarrow> article_A" where
  "titled_A t = \<lparr>title = t, link = js ''http://example.org/a'',
     description = [], thumbnail = [], pubDate = 0, source = js ''Leafly News'',
     sourceLabel = js ''Leafly'', sourceColor = js ''#71bf44'', category = js ''general''\<rparr>"

definition FL_HEMP :: named_feed where
  "FL_HEMP = \<lparr>label = js ''FL Hemp'',
     url = js ''https://news.google.com/rss/search?q=florida+hemp&hl=en-US&gl=US&ceid=US:en'',
     name = js ''Florida Hemp''\<rparr>"

definition LEAFLY :: coloured_feed where
  "LEAFLY = \<lparr>label = js ''Leafly'', url = js ''https://www.leafly.com/news/rss.xml'',
     name = js ''Leafly News'', color = js ''#71bf44''\<rparr>"

definition hemp_block :: jsstring where
  "hemp_block = js ''<title>FL hemp</title><link>http://x</link><pubDate>soon</pubDate>''"

definition hello_block :: jsstring where
  "hello_block = js ''<title>Hello</title><link>http://x</link>''"

definition ftp_block :: jsstring where
  "ftp_block = js ''<title>Hello</title><link>ftp://x</link>''"

definition in_item :: "jsstring \<Rightarrow> jsstring" where
  "in_item b = js ''<item>'' @ b @ js ''</item>''"

section \<open>Facts about strings\<close>

lemma startsWith_iff: "startsWith s w \<longleftrightarrow> (\<exists>post. s = w @ post)"
  by (induction s w rule: startsWith.induct) (auto split: if_splits)

lemma js_includes_iff: "js_includes s w \<longleftrightarrow> (\<exists>pre post. s = pre @ w @ post)"
proof (induction s)
  case Nil
  show ?case by auto
next
  case (Cons c cs)
  show ?case
  proof
    assume "js_includes (c # cs) w"
    then consider "startsWith (c # cs) w" | "js_includes cs w" by (auto split: if_splits)
    then show "\<exists>pre post. c # cs = pre @ w @ post"
    proof cases
      case 1
      then obtain post where "c # cs = w @ post" by (auto simp: startsWith_iff)
      then have "c # cs = [] @ w @ post" by simp
      then show ?thesis by blast
    next
      case 2
      with Cons obtain pre post where "cs = pre @ w @ post" by auto
      then have "c # cs = (c # pre) @ w @ post" by simp
      then show ?thesis by blast
    qed
  next
    assume "\<exists>pre post. c # cs = pre @ w @ post"
    then obtain pre post where e: "c # cs = pre @ w @ post" by blast
    show "js_includes (c # cs) w"
    proof (cases pre)
      case Nil
      with e have "startsWith (c # cs) w" by (auto simp: startsWith_iff)
      then show ?thesis by simp
    next
      case (Cons p ps)
      with e have "cs = ps @ w @ post" by simp
      with Cons.IH have "js_includes cs w" by blast
      then show ?thesis by simp
    qed
  qed
qed

section \<open>The admission filter\<close>

text \<open>
  C9. \<open>isRelevant\<close> lower-cases the concatenation of the title, one space and the
  description, and admits the pair exactly when some region keyword and some topic keyword
  occur in that text as substrings. The brand names trulieve, curaleaf, surterra, fluent
  and vidacann are topic keywords. The title "Florida House Advances Marijuana Bill" with
  an empty description is admitted; the title "California Marijuana Bill" is rejected.
\<close>

theorem isRelevant_admission:
  "(isRelevant t d \<longleftrightarrow>
      (\<exists>r \<in> set FL_WORDS. \<exists>pre post. toLowerCase (t @ js '' '' @ d) = pre @ r @ post) \<and>
      (\<exists>k \<in> set CANNA_WORDS. \<exists>pre post. toLowerCase (t @ js '' '' @ d) = pre @ k @ post))
   \<and> set (map js [''trulieve'', ''curaleaf'', ''surterra'', ''fluent'', ''vidacann'']) \<subseteq> set CANNA_WORDS
   \<and> isRelevant (js ''Florida House Advances Marijuana Bill'') (js '''')
   \<and> \<not> isRelevant (js ''California Marijuana Bill'') (js '''')"
proof -
  have a: "isRelevant t d \<longleftrightarrow>
      (\<exists>r \<in> set FL_WORDS. \<exists>pre post. toLowerCase (t @ js '' '' @ d) = pre @ r @ post) \<and>
      (\<exists>k \<in> set CANNA_WORDS. \<exists>pre post. toLowerCase (t @ js '' '' @ d) = pre @ k @ post)"
    unfolding isRelevant_def Let_def list_ex_iff js_includes_iff by (rule refl)
  have b: "set (map js [''trulieve'', ''curaleaf'', ''surterra'', ''fluent'', ''vidacann'']) \<subseteq> set CANNA_WORDS"
    unfolding CANNA_WORDS_def by (simp del: map_eq_conv)
  have c: "isRelevant (js ''Florida House Advances Marijuana Bill'') (js '''')"
    by code_simp
  have d: "\<not> isRelevant (js ''California Marijuana Bill'') (js '''')"
    by code_simp
  from a b c d show ?thesis by blast
qed

section \<open>Sorting\<close>

lemma js_insert_insort:
  "js_insert (\<lambda>a b. f b - f a) x ys = insort_key (\<lambda>a. - f a) x ys"
  by (induction ys) auto

lemma js_sort_sort_key:
  "js_sort (\<lambda>a b. (f b :: int) - f a) xs = sort_key (\<lambda>a. - f a) xs"
  unfolding js_sort_def sort_key_def
  by (induction xs) (auto simp: js_insert_insort)

lemma js_sort_props:
  fixes f :: "'a \<Rightarrow> int"
  defines "S \<equiv> js_sort (\<lambda>a b. f b - f a)"
  shows "mset (S xs) = mset xs"
    and "sorted_wrt (\<lambda>a b. f b \<le> f a) (S xs)"
    and "filter (\<lambda>a. f a = t) (S xs) = filter (\<lambda>a. f a = t) xs"
    and "length (S xs) = length xs"
proof -
  show "mset (S xs) = mset xs" by (simp add: S_def js_sort_sort_key)
  have "sorted (map (\<lambda>a. - f a) (S xs))" by (simp add: S_def js_sort_sort_key)
  then show "sorted_wrt (\<lambda>a b. f b \<le> f a) (S xs)"
    by (simp add: sorted_wrt_map)
  have "filter (\<lambda>a. - f a = - t) (S xs) = filter (\<lambda>a. - f a = - t) xs"
    unfolding S_def js_sort_sort_key by (rule sort_key_stable)
  then show "filter (\<lambda>a. f a = t) (S xs) = filter (\<lambda>a. f a = t) xs" by simp
  show "length (S xs) = length xs" by (simp add: S_def js_sort_sort_key)
qed


section \<open>The ranked result\<close>

lemma sorted_wrt_take: "sorted_wrt P xs \<Longrightarrow> sorted_wrt P (take n xs)"
  by (metis append_take_drop_id sorted_wrt_append)

text \<open>
  C7, as amended. In part\_000 and in the second document of news.js the article list of a
  rebuilt payload is a prefix (of at most 120, respectively 100 entries) of a stable
  descending sort of the deduplicated articles by \<open>_pubTimestamp\<close>; in the first
  document of news.js it is the whole stable descending sort by \<open>pubDate\<close>, with no
  bound on its length.
\<close>

theorem ranked_sorted_stable_bounded:
  "(\<exists>S. ranked kept = take 120 S \<and> mset S = mset kept
        \<and> sorted_wrt (\<lambda>a b. u_pubTimestamp b \<le> u_pubTimestamp a) S
        \<and> (\<forall>t. filter (\<lambda>a. u_pubTimestamp a = t) S = filter (\<lambda>a. u_pubTimestamp a = t) kept))
   \<and> sorted_wrt (\<lambda>a b. u_pubTimestamp b \<le> u_pubTimestamp a) (ranked kept)
   \<and> length (ranked kept) = min 120 (length kept)
   \<and> (\<exists>S. ranked_B kept_B = take 100 S \<and> mset S = mset kept_B
        \<and> sorted_wrt (\<lambda>a b. u_pubTimestamp b \<le> u_pubTimestamp a) S
        \<and> (\<forall>t. filter (\<lambda>a. u_pubTimestamp a = t) S = filter (\<lambda>a. u_pubTimestamp a = t) kept_B))
   \<and> sorted_wrt (\<lambda>a b. u_pubTimestamp b \<le> u_pubTimestamp a) (ranked_B kept_B)
   \<and> length (ranked_B kept_B) = min 100 (length kept_B)
   \<and> mset (ranked_A kept_A) = mset kept_A
   \<and> sorted_wrt (\<lambda>a b. pubDate b \<le> pubDate a) (ranked_A kept_A)
   \<and> (\<forall>t. filter (\<lambda>a. pubDate a = t) (ranked_A kept_A) = filter (\<lambda>a. pubDate a = t) kept_A)
   \<and> length (ranked_A kept_A) = length kept_A"
proof -
  let ?S = "js_sort (\<lambda>a b. u_pubTimestamp b - u_pubTimestamp a) kept"
  let ?SB = "js_sort (\<lambda>a b. u_pubTimestamp b - u_pubTimestamp a) kept_B"
  have 1: "\<exists>S. ranked kept = take 120 S \<and> mset S = mset kept
        \<and> sorted_wrt (\<lambda>a b. u_pubTimestamp b \<le> u_pubTimestamp a) S
        \<and> (\<forall>t. filter (\<lambda>a. u_pubTimestamp a = t) S = filter (\<lambda>a. u_pubTimestamp a = t) kept)"
    by (rule exI[of _ ?S]) (simp add: ranked_def js_sort_props)
  have 2: "sorted_wrt (\<lambda>a b. u_pubTimestamp b \<le> u_pubTimestamp a) (ranked kept)"
    unfolding ranked_def by (rule sorted_wrt_take) (rule js_sort_props)
  have 3: "length (ranked kept) = min 120 (length kept)"
    by (simp add: ranked_def js_sort_props min.commute)
  have 4: "\<exists>S. ranked_B kept_B = take 100 S \<and> mset S = mset kept_B
        \<and> sorted_wrt (\<lambda>a b. u_pubTimestamp b \<le> u_pubTimestamp a) S
        \<and> (\<forall>t. filter (\<lambda>a. u_pubTimestamp a = t) S = filter (\<lambda>a. u_pubTimestamp a = t) kept_B)"
    by (rule exI[of _ ?SB]) (simp add: ranked_B_def js_sort_props)
  have 5: "sorted_wrt (\<lambda>a b. u_pubTimestamp b \<le> u_pubTimestamp a) (ranked_B kept_B)"
    unfolding ranked_B_def by (rule sorted_wrt_take) (rule js_sort_props)
  have 6: "length (ranked_B kept_B) = min 100 (length kept_B)"
    by (simp add: ranked_B_def js_sort_props min.commute)
  have 7: "mset (ranked_A kept_A) = mset kept_A"
    "sorted_wrt (\<lambda>a b. pubDate b \<le> pubDate a) (ranked_A kept_A)"
    "\<forall>t. filter (\<lambda>a. pubDate a = t) (ranked_A kept_A) = filter (\<lambda>a. pubDate a = t) kept_A"
    "length (ranked_A kept_A) = length kept_A"
    by (simp_all add: ranked_A_def js_sort_props)
  from 1 2 3 4 5 6 7 show ?thesis by blast
qed

text \<open>
  C7 as stated fails in the first document of news.js: 121 articles with different titles
  give a payload of 121 articles.
\<close>

theorem unbounded_result_counterexample:
  "length (ranked_A (dedup_loop_A toLowerCase {} (map numbered_A [0..<121]))) = 121"
  by code_simp


section \<open>The orchestrator\<close>

lemma concat_map_option:
  "concat (map (\<lambda>s. value_or_empty (case f s of None \<Rightarrow> Rejected | Some x \<Rightarrow> Fulfilled (g s x))) xs)
   = concat (map (\<lambda>s. g s (the (f s))) (filter (\<lambda>s. f s \<noteq> None) xs))"
  by (induction xs) (auto simp: value_or_empty_def)

lemma fetchSource_cases:
  "fetchSource w = (\<lambda>s. if \<exists>text. fetch w (url s) = Some (True, text)
     then parseRSS_A (date_parse w) (now_item w (url s)) (snd (the (fetch w (url s)))) s else [])"
  by (rule ext) (auto simp: fetchSource_def split: option.splits)

lemma concat_map_if:
  "concat (map (\<lambda>s. if P s then g s else []) xs) = concat (map g (filter P xs))"
  by (induction xs) auto

text \<open>
  C8. Whatever way the fetches settle, the flattened result of the orchestrator is the
  concatenation, in the order of the configured sources, of the parsed article lists of
  exactly the sources whose fetch succeeded (in news.js, first document: did not throw and
  was \<open>ok\<close>): a failing source contributes nothing and leaves the others' articles and
  their order alone.
\<close>

theorem gatherAll_concat_of_successful:
  "flatMap_values (gatherAll w) =
     concat (map (\<lambda>s. parseRSS (date_parse w) (now_item w (url s)) (the (fetchUrl w (url s))) s)
       (filter (\<lambda>s. fetchUrl w (url s) \<noteq> None) SOURCES))
   \<and> flatMap_values (gatherAll_A w) =
     concat (map (\<lambda>s. parseRSS_A (date_parse w) (now_item w (url s)) (snd (the (fetch w (url s)))) s)
       (filter (\<lambda>s. \<exists>text. fetch w (url s) = Some (True, text)) SOURCES_A))"
proof
  show "flatMap_values (gatherAll w) =
     concat (map (\<lambda>s. parseRSS (date_parse w) (now_item w (url s)) (the (fetchUrl w (url s))) s)
       (filter (\<lambda>s. fetchUrl w (url s) \<noteq> None) SOURCES))"
    unfolding flatMap_values_def gatherAll_def map_map comp_def
    by (rule concat_map_option)
  have "flatMap_values (gatherAll_A w) = concat (map (fetchSource w) SOURCES_A)"
    by (simp add: flatMap_values_def gatherAll_A_def value_or_empty_def comp_def)
  also have "\<dots> = concat (map (\<lambda>s. parseRSS_A (date_parse w) (now_item w (url s)) (snd (the (fetch w (url s)))) s)
       (filter (\<lambda>s. \<exists>text. fetch w (url s) = Some (True, text)) SOURCES_A))"
    unfolding concat_map_if[symmetric] by (subst fetchSource_cases) (rule refl)
  finally show "flatMap_values (gatherAll_A w) =
     concat (map (\<lambda>s. parseRSS_A (date_parse w) (now_item w (url s)) (snd (the (fetch w (url s)))) s)
       (filter (\<lambda>s. \<exists>text. fetch w (url s) = Some (True, text)) SOURCES_A))" .
qed

lemma gatherAll_outage:
  assumes "\<forall>s\<in>set SOURCES. fetchUrl w (url s) = None"
  shows "flatMap_values (gatherAll w) = []"
  using assms by (simp add: flatMap_values_def gatherAll_def value_or_empty_def)

lemma gatherAll_A_outage:
  assumes "\<forall>s\<in>set SOURCES_A. fetch w (url s) = None \<or> (\<exists>text. fetch w (url s) = Some (False, text))"
  shows "flatMap_values (gatherAll_A w) = []"
  using assms by (auto simp: flatMap_values_def gatherAll_A_def value_or_empty_def fetchSource_def)

lemma rebuild_outage:
  assumes "\<forall>s\<in>set SOURCES. fetchUrl w (url s) = None"
  shows "rebuild w = []"
  by (simp add: rebuild_def gatherAll_outage[OF assms] dedup_def ranked_def js_sort_def)

lemma rebuild_A_outage:
  assumes "\<forall>s\<in>set SOURCES_A. fetch w (url s) = None \<or> (\<exists>text. fetch w (url s) = Some (False, text))"
  shows "rebuild_A w = []"
  by (simp add: rebuild_A_def gatherAll_A_outage[OF assms] ranked_A_def js_sort_def)

text \<open>
  C10. When the handler rebuilds (the request is not a preflight and, in part\_000, the
  cache is not fresh) and the fetch of every configured source fails, it answers with
  status 200 and the body \<open>{ok: true, count: 0, fetchedAt, articles: []}\<close>.
\<close>

theorem total_outage_answers_200:
  "(method \<noteq> js ''OPTIONS'' \<and> \<not> (data cache \<noteq> None \<and> now_check w - ts cache < CACHE_TTL)
      \<and> (\<forall>s\<in>set SOURCES. fetchUrl w (url s) = None)
     \<longrightarrow> status (response (handler w method cache)) = 200
       \<and> body (response (handler w method cache))
           = Some \<lparr>ok = True, count = 0, fetchedAt = now_payload w, articles = []\<rparr>)
   \<and> (method \<noteq> js ''OPTIONS''
      \<and> (\<forall>s\<in>set SOURCES_A. fetch w (url s) = None \<or> (\<exists>text. fetch w (url s) = Some (False, text)))
     \<longrightarrow> status (handler_A w method) = 200
       \<and> body (handler_A w method)
           = Some \<lparr>ok = True, count = 0, fetchedAt = now_payload w, articles = []\<rparr>)"
proof (intro conjI impI)
  assume a: "method \<noteq> js ''OPTIONS'' \<and> \<not> (data cache \<noteq> None \<and> now_check w - ts cache < CACHE_TTL)
      \<and> (\<forall>s\<in>set SOURCES. fetchUrl w (url s) = None)"
  then have r: "rebuild w = []" by (simp add: rebuild_outage)
  from a show "status (response (handler w method cache)) = 200"
    by (auto simp: handler_def Let_def)
  from a r show "body (response (handler w method cache))
           = Some \<lparr>ok = True, count = 0, fetchedAt = now_payload w, articles = []\<rparr>"
    by (auto simp: handler_def Let_def)
next
  assume a: "method \<noteq> js ''OPTIONS''
      \<and> (\<forall>s\<in>set SOURCES_A. fetch w (url s) = None \<or> (\<exists>text. fetch w (url s) = Some (False, text)))"
  then have r: "rebuild_A w = []" by (simp add: rebuild_A_outage)
  from a show "status (handler_A w method) = 200"
    by (simp add: handler_A_def Let_def)
  from a r show "body (handler_A w method)
           = Some \<lparr>ok = True, count = 0, fetchedAt = now_payload w, articles = []\<rparr>"
    by (simp add: handler_A_def Let_def)
qed

theorem total_outage_answers_200_witness:
  "status (response (handler outage (js ''GET'') empty_cache)) = 200
   \<and> body (response (handler outage (js ''GET'') empty_cache))
       = Some \<lparr>ok = True, count = 0, fetchedAt = 300000, articles = []\<rparr>
   \<and> status (handler_A outage (js ''GET'')) = 200
   \<and> body (handler_A outage (js ''GET''))
       = Some \<lparr>ok = True, count = 0, fetchedAt = 300000, articles = []\<rparr>"
  using total_outage_answers_200[of "js ''GET''" empty_cache outage]
  by (simp add: outage_def empty_cache_def js_def)

section \<open>The cache\<close>

text \<open>
  C6. For a request that is not a preflight, with a stored payload built at \<open>ts\<close>: if
  \<open>now - ts < CACHE_TTL\<close> the handler answers with the stored payload, leaves the cache
  as it is and fetches nothing; if \<open>now - ts \<ge> CACHE_TTL\<close>, or nothing is stored, it
  signals a miss and fetches every source. One millisecond before \<open>ts + CACHE_TTL\<close>
  is a hit, one millisecond after is a miss. The same holds in the second document of
  news.js.
\<close>

theorem cache_get_fresh_or_miss:
  "(method \<noteq> js ''OPTIONS'' \<and> data cache = Some p \<and> now_check w - ts cache < CACHE_TTL
     \<longrightarrow> handler w method cache =
           \<lparr>response = \<lparr>status = 200,
              headers = cors_headers @ [(''X-Cache'', ''HIT''), cache_control], body = Some p\<rparr>,
            cache_after = cache, requested = []\<rparr>)
   \<and> (method \<noteq> js ''OPTIONS'' \<and> (data cache = None \<or> CACHE_TTL \<le> now_check w - ts cache)
     \<longrightarrow> (''X-Cache'', ''MISS'') \<in> set (headers (response (handler w method cache)))
       \<and> requested (handler w method cache) = map url SOURCES)
   \<and> (method \<noteq> js ''OPTIONS'' \<and> data cache = Some p \<and> now_check w = ts cache + CACHE_TTL - 1
     \<longrightarrow> body (response (handler w method cache)) = Some p
       \<and> requested (handler w method cache) = [])
   \<and> (method \<noteq> js ''OPTIONS'' \<and> now_check w = ts cache + CACHE_TTL + 1
     \<longrightarrow> (''X-Cache'', ''MISS'') \<in> set (headers (response (handler w method cache)))
       \<and> requested (handler w method cache) = map url SOURCES)
   \<and> (method \<noteq> js ''OPTIONS'' \<and> data cache_B = Some q \<and> now_check w - ts cache_B < CACHE_TTL
     \<longrightarrow> handler_B w method cache_B =
           \<lparr>response = \<lparr>status = 200,
              headers = cors_headers @ [(''X-Cache'', ''HIT''), cache_control], body = Some q\<rparr>,
            cache_after = cache_B, requested = []\<rparr>)
   \<and> (method \<noteq> js ''OPTIONS'' \<and> (data cache_B = None \<or> CACHE_TTL \<le> now_check w - ts cache_B)
     \<longrightarrow> (''X-Cache'', ''MISS'') \<in> set (headers (response (handler_B w method cache_B)))
       \<and> requested (handler_B w method cache_B) = map url SOURCES_B)"
  by (auto simp: handler_def handler_B_def Let_def CACHE_TTL_def)

theorem cache_get_fresh_or_miss_witness:
  "handler (outage\<lparr>now_check := 299999\<rparr>) (js ''GET'') good_cache =
      \<lparr>response = \<lparr>status = 200,
         headers = cors_headers @ [(''X-Cache'', ''HIT''), cache_control],
         body = data good_cache\<rparr>,
       cache_after = good_cache, requested = []\<rparr>
   \<and> (''X-Cache'', ''MISS'') \<in> set (headers (response (handler (outage\<lparr>now_check := 300001\<rparr>) (js ''GET'') good_cache)))
   \<and> requested (handler (outage\<lparr>now_check := 300001\<rparr>) (js ''GET'') good_cache) = map url SOURCES
   \<and> requested (handler outage (js ''GET'') good_cache) = map url SOURCES
   \<and> requested (handler outage (js ''GET'') empty_cache) = map url SOURCES
   \<and> body (response (handler_B (outage\<lparr>now_check := 299999\<rparr>) (js ''GET'')
          \<lparr>data = Some \<lparr>ok = True, count = 0, fetchedAt = 0, articles = []\<rparr>, ts = 0\<rparr>))
       = Some \<lparr>ok = True, count = 0, fetchedAt = 0, articles = []\<rparr>
   \<and> requested (handler_B outage (js ''GET'') empty_cache) = map url SOURCES_B"
  using cache_get_fresh_or_miss[of "js ''GET''" good_cache "the (data good_cache)" "outage\<lparr>now_check := 299999\<rparr>"
      "\<lparr>data = Some \<lparr>ok = True, count = 0, fetchedAt = 0, articles = []\<rparr>, ts = 0\<rparr>"
      "\<lparr>ok = True, count = 0, fetchedAt = 0, articles = []\<rparr>"]
    cache_get_fresh_or_miss[of "js ''GET''" good_cache "the (data good_cache)" "outage\<lparr>now_check := 300001\<rparr>" empty_cache]
    cache_get_fresh_or_miss[of "js ''GET''" good_cache "the (data good_cache)" outage empty_cache]
    cache_get_fresh_or_miss[of "js ''GET''" empty_cache _ outage empty_cache]
  by (simp add: outage_def good_cache_def empty_cache_def js_def CACHE_TTL_def)

text \<open>
  The handler of news.js (second document) stores a rebuilt payload only when it has
  articles: an empty rebuild leaves the cache as it is.
\<close>

lemma handler_B_keeps_cache_on_empty:
  "rebuild_B w = [] \<Longrightarrow> cache_after (handler_B w method cache) = cache"
  by (simp add: handler_B_def Let_def)

lemma handler_B_outage_keeps_cache:
  assumes "\<forall>s\<in>set SOURCES_B. https_get w (url s) = None"
  shows "cache_after (handler_B w method cache) = cache"
proof -
  from assms have "flatMap_values (gatherAll_B w) = []"
    by (simp add: flatMap_values_def gatherAll_B_def value_or_empty_def)
  then have "rebuild_B w = []"
    by (simp add: rebuild_B_def dedup_B_def ranked_B_def js_sort_def)
  then show ?thesis by (rule handler_B_keeps_cache_on_empty)
qed

text \<open>
  C1 fails in part\_000, whose handler stores every rebuilt payload: with a cache that
  holds one article, stored at time 0, a request at time 300000 during which every fetch
  fails replaces the cached payload by the empty one.
\<close>

theorem handler_stores_empty_rebuild:
  "articles (the (data good_cache)) \<noteq> []
   \<and> cache_after (handler outage (js ''GET'') good_cache)
       = \<lparr>data = Some \<lparr>ok = True, count = 0, fetchedAt = 300000, articles = []\<rparr>, ts = 300000\<rparr>"
proof -
  have "\<forall>s\<in>set SOURCES. fetchUrl outage (url s) = None" by (simp add: outage_def)
  then have "rebuild outage = []" by (rule rebuild_outage)
  then show ?thesis
    by (simp add: handler_def Let_def good_cache_def outage_def js_def CACHE_TTL_def)
qed

section \<open>Replacing and deduplicating\<close>

lemma replace_g_skip:
  assumes "match_at r (x # xs) = None"
  shows "replace_g r (\<lambda>_. c) (x # xs) = x # replace_g r (\<lambda>_. c) xs"
proof (cases "search r xs")
  case None
  with assms show ?thesis by (subst replace_g.simps, subst (2) replace_g.simps) simp
next
  case (Some m)
  with assms show ?thesis by (subst replace_g.simps, subst (2) replace_g.simps) simp
qed

lemma replace_g_Nil:
  "match_at r [] = None \<Longrightarrow> replace_g r f [] = []"
  by (subst replace_g.simps) simp

lemma replace_g_hit:
  assumes "match_at r s = Some m" and "matched m \<noteq> []"
  shows "replace_g r f s = f m @ replace_g r f (remaining m)"
proof -
  from assms(1) have "search r s = Some m" by (cases s) auto
  moreover from assms(1) have "skipped m = []" by (simp add: match_at_len)
  ultimately show ?thesis using assms(2) by (subst replace_g.simps) simp
qed

lemma match_at_Cls:
  "match_at (Cls p) [] = None"
  "match_at (Cls p) (x # xs) =
     (if p x then Some \<lparr>skipped = [], groups = Map.empty, matched = [x], remaining = xs\<rparr> else None)"
  by (simp_all add: match_at_def)

lemma replace_g_Cls_filter:
  "replace_g (Cls p) (\<lambda>_. []) s = filter (\<lambda>c. \<not> p c) s"
proof (induction s)
  case Nil
  show ?case by (simp add: replace_g_Nil match_at_Cls)
next
  case (Cons x xs)
  show ?case
  proof (cases "p x")
    case True
    then have "replace_g (Cls p) (\<lambda>_. []) (x # xs) = [] @ replace_g (Cls p) (\<lambda>_. []) xs"
      by (subst replace_g_hit[where m = "\<lparr>skipped = [], groups = Map.empty, matched = [x], remaining = xs\<rparr>"])
         (simp_all add: match_at_Cls)
    with True Cons show ?thesis by simp
  next
    case False
    then have "replace_g (Cls p) (\<lambda>_. []) (x # xs) = x # replace_g (Cls p) (\<lambda>_. []) xs"
      by (intro replace_g_skip) (simp add: match_at_Cls)
    with False Cons show ?thesis by simp
  qed
qed

lemma greedy_total:
  assumes "\<And>s'. k s' \<noteq> None"
  shows "greedy p s k = k (dropWhile p s)"
proof (induction s)
  case Nil
  show ?case by simp
next
  case (Cons x xs)
  from assms obtain r where "k (dropWhile p xs) = Some r" by (meson option.exhaust)
  with Cons show ?case by simp
qed

lemma match_at_Many1:
  "match_at (Many1 p) [] = None"
  "match_at (Many1 p) (x # xs) =
     (if p x then Some \<lparr>skipped = [], groups = Map.empty,
        matched = take (Suc (length xs) - length (dropWhile p xs)) (x # xs),
        remaining = dropWhile p xs\<rparr> else None)"
  by (simp_all add: match_at_def Many1_def greedy_total)

lemma filter_dropWhile_not: "filter (\<lambda>c. \<not> p c) (dropWhile p xs) = filter (\<lambda>c. \<not> p c) xs"
  by (induction xs) auto

lemma replace_g_Many1_filter:
  "replace_g (Many1 p) (\<lambda>_. []) s = filter (\<lambda>c. \<not> p c) s"
proof (induction "length s" arbitrary: s rule: less_induct)
  case less
  show ?case
  proof (cases s)
    case Nil
    then show ?thesis by (simp add: replace_g_Nil match_at_Many1)
  next
    case (Cons x xs)
    show ?thesis
    proof (cases "p x")
      case True
      let ?m = "\<lparr>skipped = [], groups = Map.empty,
        matched = take (Suc (length xs) - length (dropWhile p xs)) (x # xs),
        remaining = dropWhile p xs\<rparr>"
      have len: "length (dropWhile p xs) \<le> length xs" by (rule length_dropWhile_le)
      then have ne: "matched ?m \<noteq> []" by (simp add: Suc_diff_le)
      from True have "match_at (Many1 p) (x # xs) = Some ?m" by (simp add: match_at_Many1)
      from replace_g_hit[OF this ne]
      have "replace_g (Many1 p) (\<lambda>_. []) (x # xs) = replace_g (Many1 p) (\<lambda>_. []) (dropWhile p xs)"
        by simp
      also have "\<dots> = filter (\<lambda>c. \<not> p c) (dropWhile p xs)"
        using len Cons by (intro less) simp
      finally show ?thesis using True Cons by (simp add: filter_dropWhile_not)
    next
      case False
      then have "replace_g (Many1 p) (\<lambda>_. []) (x # xs) = x # replace_g (Many1 p) (\<lambda>_. []) xs"
        by (intro replace_g_skip) (simp add: match_at_Many1)
      moreover have "replace_g (Many1 p) (\<lambda>_. []) xs = filter (\<lambda>c. \<not> p c) xs"
        using Cons by (intro less) simp
      ultimately show ?thesis using False Cons by simp
    qed
  qed
qed

lemma filter_unseen_nth:
  "filter_unseen key seen xs =
     map (\<lambda>i. xs ! i)
       (filter (\<lambda>i. key (xs ! i) \<notin> seen \<and> (\<forall>j<i. key (xs ! j) \<noteq> key (xs ! i))) [0..<length xs])"
proof (induction xs arbitrary: seen)
  case Nil
  show ?case by simp
next
  case (Cons x xs)
  have upt: "[0..<length (x # xs)] = 0 # map Suc [0..<length xs]"
    by (simp add: upt_conv_Cons map_Suc_upt del: upt_Suc)
  have all_Suc: "(\<forall>j<Suc i. P j) \<longleftrightarrow> P 0 \<and> (\<forall>j<i. P (Suc j))" for i and P :: "nat \<Rightarrow> bool"
    by (metis less_Suc_eq_0_disj)
  show ?case
  proof (cases "key x \<in> seen")
    case True
    have "filter (\<lambda>i. key ((x # xs) ! i) \<notin> seen \<and> (\<forall>j<i. key ((x # xs) ! j) \<noteq> key ((x # xs) ! i))) [0..<length (x # xs)]
        = map Suc (filter (\<lambda>i. key (xs ! i) \<notin> seen \<and> (\<forall>j<i. key (xs ! j) \<noteq> key (xs ! i))) [0..<length xs])"
      unfolding upt using True
      by (auto simp: filter_map comp_def all_Suc intro!: filter_cong)
    with True Cons[of seen] show ?thesis by (simp add: comp_def)
  next
    case False
    have "filter (\<lambda>i. key ((x # xs) ! i) \<notin> seen \<and> (\<forall>j<i. key ((x # xs) ! j) \<noteq> key ((x # xs) ! i))) [0..<length (x # xs)]
        = 0 # map Suc (filter (\<lambda>i. key (xs ! i) \<notin> insert (key x) seen \<and> (\<forall>j<i. key (xs ! j) \<noteq> key (xs ! i))) [0..<length xs])"
      unfolding upt using False
      by (auto simp: filter_map comp_def all_Suc intro!: filter_cong)
    with False Cons[of "insert (key x) seen"] show ?thesis by (simp add: comp_def)
  qed
qed

lemma dedup_loop_A_filter_unseen:
  "dedup_loop_A lc seen raw =
     filter_unseen (\<lambda>a. dedup_key_A lc (title a)) seen (filter (\<lambda>a. title a \<noteq> [] \<and> link a \<noteq> []) raw)"
  by (induction raw arbitrary: seen) (auto simp: Let_def)

text \<open>
  C4, as amended. Whatever the runtime's \<open>toLowerCase\<close> is (\<open>lc\<close>): \<open>dedup\<close> of part\_000
  keys an article by the first 65 code units of its title, lower-cased, with everything
  but \<open>a-z\<close> and \<open>0-9\<close> removed, and keeps exactly the articles whose key no earlier
  article has: two articles with the same key collapse to the earlier one. The handler of
  news.js (first document) keys by the first 70 code units, lower-cased, with white space
  removed and punctuation kept; it skips articles with an empty title or link and keeps,
  of the others, those whose key no earlier one has.
\<close>

theorem dedup_first_seen_wins:
  "dedup_key lc t = filter (\<lambda>c. is_lower c \<or> is_digit c) (lc (take 65 t))
   \<and> dedup lc items = map (\<lambda>i. items ! i)
        (filter (\<lambda>i. \<forall>j<i. dedup_key lc (title (items ! j)) \<noteq> dedup_key lc (title (items ! i)))
           [0..<length items])
   \<and> (dedup_key lc (title a) = dedup_key lc (title b) \<longrightarrow> dedup lc [a, b] = [a])
   \<and> dedup_key_A lc t = filter (\<lambda>c. \<not> is_space c) (lc (take 70 t))
   \<and> dedup_loop_A lc {} raw =
       (let named = filter (\<lambda>a. title a \<noteq> [] \<and> link a \<noteq> []) raw
        in map (\<lambda>i. named ! i)
          (filter (\<lambda>i. \<forall>j<i. dedup_key_A lc (title (named ! j)) \<noteq> dedup_key_A lc (title (named ! i)))
             [0..<length named]))"
proof -
  have 1: "dedup_key lc t = filter (\<lambda>c. is_lower c \<or> is_digit c) (lc (take 65 t))"
    unfolding dedup_key_def replace_g_Cls_filter by simp
  have 2: "dedup lc items = map (\<lambda>i. items ! i)
        (filter (\<lambda>i. \<forall>j<i. dedup_key lc (title (items ! j)) \<noteq> dedup_key lc (title (items ! i)))
           [0..<length items])"
    by (simp add: dedup_def filter_unseen_nth)
  have 3: "dedup_key lc (title a) = dedup_key lc (title b) \<longrightarrow> dedup lc [a, b] = [a]"
    by (simp add: dedup_def)
  have 4: "dedup_key_A lc t = filter (\<lambda>c. \<not> is_space c) (lc (take 70 t))"
    by (simp add: dedup_key_A_def SPACES_RE_def replace_g_Many1_filter)
  have 5: "dedup_loop_A lc {} raw =
       (let named = filter (\<lambda>a. title a \<noteq> [] \<and> link a \<noteq> []) raw
        in map (\<lambda>i. named ! i)
          (filter (\<lambda>i. \<forall>j<i. dedup_key_A lc (title (named ! j)) \<noteq> dedup_key_A lc (title (named ! i)))
             [0..<length named]))"
    by (simp add: dedup_loop_A_filter_unseen filter_unseen_nth Let_def)
  from 1 2 3 4 5 show ?thesis by blast
qed

text \<open>
  On ASCII titles, where the runtime's \<open>toLowerCase\<close> is the function of that name above.
\<close>

theorem dedup_first_seen_wins_witness:
  "dedup_key toLowerCase (js ''Hemp Bill!'') = js ''hempbill''
   \<and> dedup toLowerCase [titled (js ''Hemp Bill!''), titled (js ''hemp bill''), titled (js ''Other'')]
       = [titled (js ''Hemp Bill!''), titled (js ''Other'')]
   \<and> dedup toLowerCase [titled (js ''Hemp Bill!''), titled (js ''hemp bill'')]
       = [titled (js ''Hemp Bill!'')]
   \<and> dedup_key_A toLowerCase (js ''Hemp Bill!'') = js ''hempbill!''
   \<and> dedup_loop_A toLowerCase {}
         [titled_A (js ''Hemp Bill''), titled_A [], titled_A (js ''hemp  bill'')]
       = [titled_A (js ''Hemp Bill'')]"
proof -
  have k: "dedup_key toLowerCase (title (titled (js ''Hemp Bill!'')))
      = dedup_key toLowerCase (title (titled (js ''hemp bill'')))"
    by code_simp
  have e: "map (\<lambda>i. [titled (js ''Hemp Bill!''), titled (js ''hemp bill''), titled (js ''Other'')] ! i)
        (filter (\<lambda>i. \<forall>j<i. dedup_key toLowerCase (title ([titled (js ''Hemp Bill!''), titled (js ''hemp bill''), titled (js ''Other'')] ! j))
              \<noteq> dedup_key toLowerCase (title ([titled (js ''Hemp Bill!''), titled (js ''hemp bill''), titled (js ''Other'')] ! i)))
           [0..<length [titled (js ''Hemp Bill!''), titled (js ''hemp bill''), titled (js ''Other'')]])
      = dedup toLowerCase [titled (js ''Hemp Bill!''), titled (js ''hemp bill''), titled (js ''Other'')]"
    using dedup_first_seen_wins[of toLowerCase "js ''Hemp Bill!''"
        "[titled (js ''Hemp Bill!''), titled (js ''hemp bill''), titled (js ''Other'')]"
        "titled (js ''Hemp Bill!'')" "titled (js ''hemp bill'')"
        "[titled_A (js ''Hemp Bill''), titled_A [], titled_A (js ''hemp  bill'')]"]
    by simp
  have v: "dedup toLowerCase [titled (js ''Hemp Bill!''), titled (js ''hemp bill''), titled (js ''Other'')]
       = [titled (js ''Hemp Bill!''), titled (js ''Other'')]"
    by code_simp
  have c: "dedup toLowerCase [titled (js ''Hemp Bill!''), titled (js ''hemp bill'')]
       = [titled (js ''Hemp Bill!'')]"
    using dedup_first_seen_wins[of toLowerCase "js ''Hemp Bill!''"
        "[titled (js ''Hemp Bill!''), titled (js ''hemp bill''), titled (js ''Other'')]"
        "titled (js ''Hemp Bill!'')" "titled (js ''hemp bill'')"
        "[titled_A (js ''Hemp Bill''), titled_A [], titled_A (js ''hemp  bill'')]"] k
    by blast
  have a: "dedup_key toLowerCase (js ''Hemp Bill!'') = js ''hempbill''" by code_simp
  have b: "dedup_key_A toLowerCase (js ''Hemp Bill!'') = js ''hempbill!''" by code_simp
  have d: "dedup_loop_A toLowerCase {}
         [titled_A (js ''Hemp Bill''), titled_A [], titled_A (js ''hemp  bill'')]
       = [titled_A (js ''Hemp Bill'')]" by code_simp
  from a v c b d show ?thesis by blast
qed

text \<open>
  C4 as stated fails in the first document of news.js: two titles that differ only in a
  trailing exclamation mark are both kept.
\<close>

theorem punctuation_not_stripped_counterexample:
  "dedup_loop_A toLowerCase {} [titled_A (js ''Hemp Bill!''), titled_A (js ''Hemp Bill'')]
     = [titled_A (js ''Hemp Bill!''), titled_A (js ''Hemp Bill'')]"
  by code_simp

section \<open>Character references\<close>

lemma search_Lit_absent: "a \<notin> set s \<Longrightarrow> search (Lit (a # l)) s = None"
  by (induction s) (auto simp: match_at_def)

lemma replace_g_no_match: "search r s = None \<Longrightarrow> replace_g r f s = s"
  by (subst replace_g.simps) simp

lemma search_seqs_Lit_absent: "a \<notin> set s \<Longrightarrow> search (seqs (Lit (a # l) # rs)) s = None"
  by (induction s) (auto simp: match_at_def seqs_def)

text \<open>A literal that starts like the text but differs at its second code unit.\<close>

lemma replace_lit_second_differs:
  assumes "c \<noteq> b" and "a \<notin> set (c # t)"
  shows "replace_lit (a # b # l) rep (a # c # t) = a # c # t"
proof -
  have "search (Lit (a # b # l)) (a # c # t) = None"
    using assms by (simp add: match_at_def search_Lit_absent)
  then show ?thesis unfolding replace_lit_def by (rule replace_g_no_match)
qed

lemma replace_lit_third_differs:
  assumes "d \<noteq> e" and "a \<notin> set (b # d # t)"
  shows "replace_lit (a # b # e # l) rep (a # b # d # t) = a # b # d # t"
proof -
  have "search (Lit (a # b # e # l)) (a # b # d # t) = None"
    using assms by (simp add: match_at_def search_Lit_absent)
  then show ?thesis unfolding replace_lit_def by (rule replace_g_no_match)
qed

lemma greedy_run:
  assumes "list_all p ds" and "\<not> p y" and "k (y # ys) = Some r"
  shows "greedy p (ds @ y # ys) k = Some r"
  using assms by (induction ds) auto

lemma digits_not_amp: "list_all is_digit ds \<Longrightarrow> 38 \<notin> set ds"
  by (induction ds) (auto simp: is_digit_def)

lemma hex_digits_not_amp: "list_all is_hex_digit ds \<Longrightarrow> 38 \<notin> set ds"
  by (induction ds) (auto simp: is_hex_digit_def is_digit_def)

lemma digit_val_nonneg: "is_hex_digit c \<Longrightarrow> 0 \<le> digit_val c"
  unfolding digit_val_def is_hex_digit_def is_digit_def by presburger

lemma is_digit_hex: "is_digit c \<Longrightarrow> is_hex_digit c"
  by (simp add: is_hex_digit_def)

lemma hex_value_acc:
  "list_all is_hex_digit ds \<Longrightarrow> 0 \<le> a \<Longrightarrow> 0 \<le> foldl (\<lambda>a c. b * a + digit_val c) a ds"
  if "0 \<le> b" for b :: int
proof (induction ds arbitrary: a)
  case Nil
  then show ?case by simp
next
  case (Cons d ds)
  from Cons.prems have "0 \<le> digit_val d" by (simp add: digit_val_nonneg)
  moreover from that Cons.prems have "0 \<le> b * a" by simp
  ultimately have "0 \<le> b * a + digit_val d" by linarith
  with Cons show ?case by simp
qed

lemma hex_value_nonneg: "list_all is_hex_digit ds \<Longrightarrow> 0 \<le> hex_value ds"
  unfolding hex_value_def by (rule hex_value_acc) simp_all

lemma dec_value_nonneg: "list_all is_digit ds \<Longrightarrow> 0 \<le> dec_value ds"
  unfolding dec_value_def
  by (rule hex_value_acc) (simp_all add: list_all_iff is_digit_hex)

lemma char_of_code: "0 \<le> v \<Longrightarrow> v < 65536 \<Longrightarrow> fromCharCode (to_double v) = [v]"
  by (simp add: fromCharCode_def to_double_def)

text \<open>A decimal reference on its own is one match of \<open>DEC_REF_RE\<close>.\<close>

lemma match_dec_ref:
  assumes "ds \<noteq> []" and "list_all is_digit ds"
  shows "match_at DEC_REF_RE (38 # 35 # ds @ [59]) =
     Some \<lparr>skipped = [], groups = [1 \<mapsto> (ds @ [59], [59])], matched = 38 # 35 # ds @ [59],
       remaining = []\<rparr>"
proof -
  from assms obtain d ds' where ds: "ds = d # ds'" "is_digit d" "list_all is_digit ds'"
    by (cases ds) auto
  have "\<not> is_digit 59" by (simp add: is_digit_def)
  with ds(3) show ?thesis
    unfolding ds(1)
    by (simp add: match_at_def DEC_REF_RE_def seqs_def Many1_def js_def ds(2) greedy_run)
qed

lemma match_hex_ref:
  assumes "hs \<noteq> []" and "list_all is_hex_digit hs"
  shows "match_at HEX_REF_RE (38 # 35 # 120 # hs @ [59]) =
     Some \<lparr>skipped = [], groups = [1 \<mapsto> (hs @ [59], [59])], matched = 38 # 35 # 120 # hs @ [59],
       remaining = []\<rparr>"
proof -
  from assms obtain d hs' where hs: "hs = d # hs'" "is_hex_digit d" "list_all is_hex_digit hs'"
    by (cases hs) auto
  have "\<not> is_hex_digit 59" by (simp add: is_hex_digit_def is_digit_def)
  with hs(3) show ?thesis
    unfolding hs(1)
    by (simp add: match_at_def HEX_REF_RE_def seqs_def Many1_def js_def hs(2) greedy_run upper_char_def)
qed

lemma replace_dec_ref:
  assumes "ds \<noteq> []" and "list_all is_digit ds" and "dec_value ds < 65536"
  shows "replace_g DEC_REF_RE (\<lambda>m. fromCharCode (to_double (dec_value (grp m 1)))) (38 # 35 # ds @ [59])
     = [dec_value ds]"
proof -
  let ?m = "\<lparr>skipped = [], groups = [1 \<mapsto> (ds @ [59], [59])], matched = 38 # 35 # ds @ [59],
       remaining = []\<rparr>"
  have e: "match_at DEC_REF_RE [] = None"
    by (simp add: match_at_def DEC_REF_RE_def seqs_def js_def)
  show ?thesis
    by (subst replace_g_hit[OF match_dec_ref[OF assms(1,2)]])
       (simp_all add: grp_def replace_g_Nil[OF e] char_of_code dec_value_nonneg assms)
qed

lemma replace_hex_ref:
  assumes "hs \<noteq> []" and "list_all is_hex_digit hs" and "hex_value hs < 65536"
  shows "replace_g HEX_REF_RE (\<lambda>m. fromCharCode (to_double (hex_value (grp m 1)))) (38 # 35 # 120 # hs @ [59])
     = [hex_value hs]"
proof -
  let ?m = "\<lparr>skipped = [], groups = [1 \<mapsto> (hs @ [59], [59])], matched = 38 # 35 # 120 # hs @ [59],
       remaining = []\<rparr>"
  have e: "match_at HEX_REF_RE [] = None"
    by (simp add: match_at_def HEX_REF_RE_def seqs_def js_def)
  show ?thesis
    by (subst replace_g_hit[OF match_hex_ref[OF assms(1,2)]])
       (simp_all add: grp_def replace_g_Nil[OF e] char_of_code hex_value_nonneg assms)
qed

lemma replace_hex_single: "replace_g HEX_REF_RE f [c] = [c]"
  by (rule replace_g_no_match) (simp add: match_at_def HEX_REF_RE_def seqs_def js_def)

lemma replace_dec_single: "replace_g DEC_REF_RE f [c] = [c]"
  by (rule replace_g_no_match) (simp add: match_at_def DEC_REF_RE_def seqs_def js_def)

lemma replace_lit_single: "length l > 1 \<Longrightarrow> replace_lit l rep [c] = [c]"
  unfolding replace_lit_def
  by (rule replace_g_no_match) (cases l; cases "tl l"; simp add: match_at_def)

text \<open>The reference \<open>&#39;\<close> among the decimal references.\<close>

lemma starts_39:
  assumes "list_all is_digit ds"
  shows "startsWith (ds @ [59]) [51, 57, 59] \<longleftrightarrow> ds = [51, 57]"
proof (cases ds)
  case Nil
  then show ?thesis by simp
next
  case (Cons a as)
  show ?thesis
  proof (cases as)
    case Nil
    with Cons show ?thesis by simp
  next
    case (Cons b bs)
    show ?thesis
    proof (cases bs)
      case Nil
      with Cons \<open>ds = a # as\<close> show ?thesis by auto
    next
      case (Cons c cs)
      with \<open>as = b # bs\<close> \<open>ds = a # as\<close> assms have "c \<noteq> 59" by (auto simp: is_digit_def)
      with Cons \<open>as = b # bs\<close> \<open>ds = a # as\<close> show ?thesis by auto
    qed
  qed
qed

lemma replace_39:
  assumes "list_all is_digit ds"
  shows "replace_lit [38, 35, 51, 57, 59] [39] (38 # 35 # ds @ [59]) =
     (if ds = [51, 57] then [39] else 38 # 35 # ds @ [59])"
proof (cases "ds = [51, 57]")
  case True
  have "match_at (Lit [38, 35, 51, 57, 59]) [38, 35, 51, 57, 59] =
      Some \<lparr>skipped = [], groups = Map.empty, matched = [38, 35, 51, 57, 59], remaining = []\<rparr>"
    by (simp add: match_at_def)
  from replace_g_hit[OF this] have "replace_lit [38, 35, 51, 57, 59] [39] [38, 35, 51, 57, 59] = [39]"
    by (simp add: replace_lit_def replace_g_Nil match_at_def)
  with True show ?thesis by simp
next
  case False
  from assms have "38 \<notin> set (35 # ds @ [59])" by (auto dest: digits_not_amp)
  then have "search (Lit [38, 35, 51, 57, 59]) (35 # ds @ [59]) = None"
    by (rule search_Lit_absent)
  moreover have "\<not> startsWith (ds @ [59]) [51, 57, 59]" using False starts_39[OF assms] by simp
  ultimately have "search (Lit [38, 35, 51, 57, 59]) (38 # 35 # ds @ [59]) = None"
    by (simp add: match_at_def)
  with False show ?thesis by (simp add: replace_lit_def replace_g_no_match)
qed

lemma decodeEntities_decimal:
  assumes "ds \<noteq> []" and "list_all is_digit ds" and "dec_value ds < 65536"
  shows "decodeEntities (js ''&#'' @ ds @ js '';'') = [dec_value ds]"
proof -
  have s: "js ''&#'' @ ds @ js '';'' = 38 # 35 # ds @ [59]" by (simp add: js_def)
  have na: "38 \<notin> set (35 # ds @ [59])" using assms(2) by (auto dest: digits_not_amp)
  have v39: "dec_value [51, 57] = 39" by (simp add: dec_value_def digit_val_def is_digit_def)
  show ?thesis
    unfolding s decodeEntities_def Let_def
    using na
    by (simp add: js_def apostrophe_def dquote_def replace_lit_second_differs replace_39[OF assms(2)]
        replace_dec_ref[OF assms] replace_hex_single replace_dec_single replace_lit_single v39
        del: One_nat_def)
qed

lemma unescape_decimal:
  assumes "ds \<noteq> []" and "list_all is_digit ds" and "dec_value ds < 65536"
  shows "unescape (js ''&#'' @ ds @ js '';'') = [dec_value ds]"
proof -
  have s: "js ''&#'' @ ds @ js '';'' = 38 # 35 # ds @ [59]" by (simp add: js_def)
  have na: "38 \<notin> set (35 # ds @ [59])" using assms(2) by (auto dest: digits_not_amp)
  have v39: "dec_value [51, 57] = 39" by (simp add: dec_value_def digit_val_def is_digit_def)
  show ?thesis
    unfolding s unescape_def Let_def
    using na
    by (simp add: js_def apostrophe_def dquote_def replace_lit_second_differs replace_39[OF assms(2)]
        replace_dec_ref[OF assms] replace_dec_single v39 del: One_nat_def)
qed

lemma decodeEntities_hex:
  assumes "hs \<noteq> []" and "list_all is_hex_digit hs" and "hex_value hs < 65536"
  shows "decodeEntities (js ''&#x'' @ hs @ js '';'') = [hex_value hs]"
proof -
  have s: "js ''&#x'' @ hs @ js '';'' = 38 # 35 # 120 # hs @ [59]" by (simp add: js_def)
  have na: "38 \<notin> set (35 # 120 # hs @ [59])" using assms(2) by (auto dest: hex_digits_not_amp)
  have r: "DEC_REF_RE = seqs (Lit (38 # [35]) # [Grp 1 (Many1 is_digit), Lit [59]])"
    by (simp add: DEC_REF_RE_def js_def)
  have "search DEC_REF_RE (35 # 120 # hs @ [59]) = None"
    unfolding r using na by (rule search_seqs_Lit_absent)
  then have d: "search DEC_REF_RE (38 # 35 # 120 # hs @ [59]) = None"
    by (simp add: match_at_def DEC_REF_RE_def seqs_def Many1_def js_def is_digit_def)
  show ?thesis
    unfolding s decodeEntities_def Let_def
    using na
    by (simp add: js_def apostrophe_def dquote_def replace_lit_second_differs
        replace_lit_third_differs replace_g_no_match[OF d] replace_hex_ref[OF assms]
        del: One_nat_def)
qed

lemma unescape_hex:
  assumes "list_all is_hex_digit hs"
  shows "unescape (js ''&#x'' @ hs @ js '';'') = js ''&#x'' @ hs @ js '';''"
proof -
  have s: "js ''&#x'' @ hs @ js '';'' = 38 # 35 # 120 # hs @ [59]" by (simp add: js_def)
  have na: "38 \<notin> set (35 # 120 # hs @ [59])" using assms by (auto dest: hex_digits_not_amp)
  have r: "DEC_REF_RE = seqs (Lit (38 # [35]) # [Grp 1 (Many1 is_digit), Lit [59]])"
    by (simp add: DEC_REF_RE_def js_def)
  have "search DEC_REF_RE (35 # 120 # hs @ [59]) = None"
    unfolding r using na by (rule search_seqs_Lit_absent)
  then have d: "search DEC_REF_RE (38 # 35 # 120 # hs @ [59]) = None"
    by (simp add: match_at_def DEC_REF_RE_def seqs_def Many1_def js_def is_digit_def)
  show ?thesis
    unfolding s unescape_def Let_def
    using na
    by (simp add: js_def apostrophe_def dquote_def replace_lit_second_differs
        replace_lit_third_differs replace_g_no_match[OF d] del: One_nat_def)
qed

text \<open>
  C5, as amended. \<open>decodeEntities\<close> of part\_000 maps each of \<open>&amp;\<close>, \<open>&lt;\<close>,
  \<open>&gt;\<close>, \<open>&quot;\<close> and \<open>&#39;\<close>, and every decimal and every hexadecimal
  reference to a code below 65536, to the one code unit it names. \<open>unescape\<close> of news.js
  (second document) does so for the five fixed references and for decimal references, and
  leaves every hexadecimal reference as it is. \<open>decode\<close> of news.js (first document)
  maps \<open>&amp;\<close>, \<open>&lt;\<close>, \<open>&gt;\<close>, \<open>&quot;\<close>, \<open>&#039;\<close> and \<open>&#8230;\<close> to the code
  unit each names; it maps \<open>&#8217;\<close> to the apostrophe U+0027 and \<open>&#8220;\<close> and
  \<open>&#8221;\<close> to the quotation mark U+0022, not to the code units U+2019, U+201C and
  U+201D they name; and it leaves \<open>&#39;\<close>, \<open>&#65;\<close> and \<open>&#x41;\<close> as they are.
\<close>

theorem decodeEntities_references:
  "decodeEntities (js ''&amp;'') = js ''&'' \<and> decodeEntities (js ''&lt;'') = js ''<''
   \<and> decodeEntities (js ''&gt;'') = js ''>'' \<and> decodeEntities (js ''&quot;'') = dquote
   \<and> decodeEntities (js ''&#39;'') = apostrophe
   \<and> (ds \<noteq> [] \<and> list_all is_digit ds \<and> dec_value ds < 65536
        \<longrightarrow> decodeEntities (js ''&#'' @ ds @ js '';'') = [dec_value ds])
   \<and> (hs \<noteq> [] \<and> list_all is_hex_digit hs \<and> hex_value hs < 65536
        \<longrightarrow> decodeEntities (js ''&#x'' @ hs @ js '';'') = [hex_value hs])
   \<and> unescape (js ''&amp;'') = js ''&'' \<and> unescape (js ''&lt;'') = js ''<''
   \<and> unescape (js ''&gt;'') = js ''>'' \<and> unescape (js ''&quot;'') = dquote
   \<and> unescape (js ''&#39;'') = apostrophe
   \<and> (ds \<noteq> [] \<and> list_all is_digit ds \<and> dec_value ds < 65536
        \<longrightarrow> unescape (js ''&#'' @ ds @ js '';'') = [dec_value ds])
   \<and> (hs \<noteq> [] \<and> list_all is_hex_digit hs
        \<longrightarrow> unescape (js ''&#x'' @ hs @ js '';'') = js ''&#x'' @ hs @ js '';'')
   \<and> decode (js ''&amp;'') = js ''&'' \<and> decode (js ''&lt;'') = js ''<''
   \<and> decode (js ''&gt;'') = js ''>'' \<and> decode (js ''&quot;'') = dquote
   \<and> decode (js ''&#039;'') = [39] \<and> decode (js ''&#8230;'') = [8230]
   \<and> decode (js ''&#8217;'') = [39]
   \<and> decode (js ''&#8220;'') = [34] \<and> decode (js ''&#8221;'') = [34]
   \<and> decode (js ''&#39;'') = js ''&#39;'' \<and> decode (js ''&#65;'') = js ''&#65;''
   \<and> decode (js ''&#x41;'') = js ''&#x41;''"
proof -
  have 1: "decodeEntities (js ''&amp;'') = js ''&''" "decodeEntities (js ''&lt;'') = js ''<''"
    "decodeEntities (js ''&gt;'') = js ''>''" "decodeEntities (js ''&quot;'') = dquote"
    "decodeEntities (js ''&#39;'') = apostrophe"
    by code_simp+
  have 2: "unescape (js ''&amp;'') = js ''&''" "unescape (js ''&lt;'') = js ''<''"
    "unescape (js ''&gt;'') = js ''>''" "unescape (js ''&quot;'') = dquote"
    "unescape (js ''&#39;'') = apostrophe"
    by code_simp+
  have 3: "decode (js ''&amp;'') = js ''&''" "decode (js ''&lt;'') = js ''<''"
    "decode (js ''&gt;'') = js ''>''" "decode (js ''&quot;'') = dquote"
    by code_simp+
  have 4: "decode (js ''&#039;'') = [39]" "decode (js ''&#8230;'') = [8230]"
    "decode (js ''&#8217;'') = [39]"
    "decode (js ''&#8220;'') = [34]" "decode (js ''&#8221;'') = [34]"
    by code_simp+
  have 5: "decode (js ''&#39;'') = js ''&#39;''" "decode (js ''&#65;'') = js ''&#65;''"
    "decode (js ''&#x41;'') = js ''&#x41;''"
    by code_simp+
  show ?thesis
    using 1 2 3 4 5 decodeEntities_decimal[of ds] decodeEntities_hex[of hs] unescape_decimal[of ds]
      unescape_hex[of hs]
    by blast
qed

theorem decodeEntities_references_witness:
  "dec_value (js ''65'') = 65 \<and> hex_value (js ''41'') = 65
   \<and> decodeEntities (js ''&#65;'') = js ''A'' \<and> decodeEntities (js ''&#x41;'') = js ''A''
   \<and> unescape (js ''&#65;'') = js ''A'' \<and> unescape (js ''&#x41;'') = js ''&#x41;''"
proof -
  have d: "js ''65'' \<noteq> [] \<and> list_all is_digit (js ''65'') \<and> dec_value (js ''65'') < 65536"
    by (simp add: js_def is_digit_def dec_value_def digit_val_def)
  have h: "js ''41'' \<noteq> [] \<and> list_all is_hex_digit (js ''41'') \<and> hex_value (js ''41'') < 65536"
    by (simp add: js_def is_hex_digit_def is_digit_def hex_value_def digit_val_def)
  have v: "dec_value (js ''65'') = 65" "hex_value (js ''41'') = 65"
    by (simp_all add: js_def is_digit_def dec_value_def hex_value_def digit_val_def)
  have a: "js ''&#'' @ js ''65'' @ js '';'' = js ''&#65;''" "js ''&#x'' @ js ''41'' @ js '';'' = js ''&#x41;''"
    "js ''A'' = [65]"
    by (simp_all add: js_def)
  from decodeEntities_references[of "js ''65''" "js ''41''"] d h
  have "decodeEntities (js ''&#'' @ js ''65'' @ js '';'') = [dec_value (js ''65'')]"
    "decodeEntities (js ''&#x'' @ js ''41'' @ js '';'') = [hex_value (js ''41'')]"
    "unescape (js ''&#'' @ js ''65'' @ js '';'') = [dec_value (js ''65'')]"
    "unescape (js ''&#x'' @ js ''41'' @ js '';'') = js ''&#x'' @ js ''41'' @ js '';''"
    by blast+
  with v a show ?thesis by simp
qed

text \<open>
  C5 as stated fails for the decoders of news.js: \<open>unescape\<close> leaves \<open>&#x41;\<close> as it
  is; \<open>decode\<close> leaves \<open>&#x41;\<close>, \<open>&#65;\<close> and \<open>&#39;\<close> as they are, and makes an
  apostrophe (U+0027) of \<open>&#8217;\<close>, which names U+2019. It also fails in part\_000
  above the Basic Multilingual Plane: \<open>&#128512;\<close> (U+1F600, in a string the two code
  units D83D DE00) is decoded to the single code unit F600.
\<close>

theorem entity_decoder_counterexample:
  "unescape (js ''&#x41;'') = js ''&#x41;'' \<and> decode (js ''&#x41;'') = js ''&#x41;''
   \<and> decode (js ''&#65;'') = js ''&#65;'' \<and> decode (js ''&#39;'') = js ''&#39;''
   \<and> decode (js ''&#8217;'') = [39]
   \<and> decodeEntities (js ''&#128512;'') = [62976]"
  by code_simp

section \<open>The item parser\<close>

lemma js_or_Nil [simp]: "js_or a [] = a"
  by (simp add: js_or_def)

lemma map_filter_enumerate:
  assumes "\<And>i x. g (i, x) \<noteq> None \<longleftrightarrow> P x"
    and "\<And>i x a. g (i, x) = Some a \<Longrightarrow> f a = h x"
  shows "map f (List.map_filter g (enumerate n xs)) = map h (filter P xs)"
proof (induction xs arbitrary: n)
  case Nil
  show ?case by (simp add: List.map_filter_simps)
next
  case (Cons x xs)
  show ?case
  proof (cases "g (n, x)")
    case None
    with assms(1)[of n x] have "\<not> P x" by simp
    with None Cons[of "Suc n"] show ?thesis by (simp add: List.map_filter_simps)
  next
    case (Some a)
    with assms(1)[of n x] have "P x" by simp
    with Some assms(2)[OF Some] Cons[of "Suc n"] show ?thesis by (simp add: List.map_filter_simps)
  qed
qed

lemma parseItem_emits:
  "parseItem dp now b src \<noteq> None \<longleftrightarrow>
     getTag b (js ''title'') \<noteq> []
     \<and> js_or (getTag b (js ''link'')) (getTag b (js ''guid'')) \<noteq> []
     \<and> startsWith (js_or (getTag b (js ''link'')) (getTag b (js ''guid''))) (js ''http'')
     \<and> isRelevant (getTag b (js ''title'')) (take 280 (strip_markup (getRawTag b (js ''description''))))"
  by (simp add: parseItem_def Let_def)

lemma parseItem_None:
  "parseItem dp now b src = None \<longleftrightarrow>
     \<not> (getTag b (js ''title'') \<noteq> []
     \<and> js_or (getTag b (js ''link'')) (getTag b (js ''guid'')) \<noteq> []
     \<and> startsWith (js_or (getTag b (js ''link'')) (getTag b (js ''guid''))) (js ''http'')
     \<and> isRelevant (getTag b (js ''title'')) (take 280 (strip_markup (getRawTag b (js ''description'')))))"
  using parseItem_emits[of dp now b src] by blast

lemma parseItem_fields:
  assumes "parseItem dp now b src = Some a"
  shows "title a = getTag b (js ''title'')"
    and "link a = js_or (getTag b (js ''link'')) (getTag b (js ''guid''))"
    and "u_pubTimestamp a =
      (let pd = js_or (getTag b (js ''pubDate'')) (getTag b (js ''dc:date''))
       in if pd = [] then now else case dp pd of None \<Rightarrow> now | Some t \<Rightarrow> t)"
  using assms by (auto simp: parseItem_def Let_def split: if_splits)

lemma parseItem_A_emits:
  "parseItem_A dp now b src \<noteq> None \<longleftrightarrow>
     get b (js ''title'') \<noteq> []
     \<and> js_or (get b (js ''link'')) (gattr b (js ''link'') (js ''href'')) \<noteq> []
     \<and> (let pd = js_or (get b (js ''pubDate'')) (js_or (get b (js ''dc:date'')) (get b (js ''published'')))
        in pd = [] \<or> dp pd \<noteq> None)"
  by (auto simp: parseItem_A_def Let_def split: option.splits)

lemma parseItem_A_None:
  "parseItem_A dp now b src = None \<longleftrightarrow>
     \<not> (get b (js ''title'') \<noteq> []
     \<and> js_or (get b (js ''link'')) (gattr b (js ''link'') (js ''href'')) \<noteq> []
     \<and> (let pd = js_or (get b (js ''pubDate'')) (js_or (get b (js ''dc:date'')) (get b (js ''published'')))
        in pd = [] \<or> dp pd \<noteq> None))"
  using parseItem_A_emits[of dp now b src] by blast

lemma parseItem_A_fields:
  assumes "parseItem_A dp now b src = Some a"
  shows "title a = decode (get b (js ''title''))"
    and "link a = js_or (get b (js ''link'')) (gattr b (js ''link'') (js ''href''))"
  using assms by (auto simp: parseItem_A_def Let_def split: if_splits option.splits)

lemma parseItem_B_emits:
  "parseItem_B dp now b lbl \<noteq> None \<longleftrightarrow>
     tag b (js ''title'') \<noteq> []
     \<and> (case or_match (search LINK_RE b) (search (attr_re (js ''link'') (js ''href'')) b) of
          Some m \<Rightarrow> unescape (trim (grp m 1)) | None \<Rightarrow> []) \<noteq> []"
  by (simp add: parseItem_B_def Let_def)

lemma parseItem_B_fields:
  assumes "parseItem_B dp now b lbl = Some a"
  shows "u_pubTimestamp a =
      (let pd = js_or (tag b (js ''pubDate'')) (tag b (js ''dc:date''))
       in if pd = [] then now else case dp pd of None \<Rightarrow> now | Some t \<Rightarrow> t)"
  using assms by (auto simp: parseItem_B_def Let_def split: if_splits)

text \<open>
  C2, as amended. In part\_000 an item block yields an article exactly when its title is
  not empty, its link (the link field, else the guid field) is not empty and starts with
  \<open>http\<close>, and the relevance filter admits its title and description; the article then
  carries that title and that link, and the articles of a document are those of its
  admitted blocks, in order. In news.js (first document) a block yields an article exactly
  when its title and its link (the link field, else the href attribute) are not empty and
  its date, if it has one, parses: there is no test of the URL scheme.
\<close>

theorem validation_gate:
  "(parseItem dp now b src \<noteq> None \<longleftrightarrow>
      getTag b (js ''title'') \<noteq> []
      \<and> js_or (getTag b (js ''link'')) (getTag b (js ''guid'')) \<noteq> []
      \<and> startsWith (js_or (getTag b (js ''link'')) (getTag b (js ''guid''))) (js ''http'')
      \<and> isRelevant (getTag b (js ''title'')) (take 280 (strip_markup (getRawTag b (js ''description'')))))
   \<and> (\<forall>a. parseItem dp now b src = Some a \<longrightarrow>
        title a = getTag b (js ''title'')
        \<and> link a = js_or (getTag b (js ''link'')) (getTag b (js ''guid'')))
   \<and> map (\<lambda>a. (title a, link a)) (parseRSS dp clock xml src) =
       map (\<lambda>b. (getTag b (js ''title''), js_or (getTag b (js ''link'')) (getTag b (js ''guid''))))
         (filter (\<lambda>b. parseItem dp now b src \<noteq> None) (itemBlocks xml))
   \<and> (parseItem_A dp now b src_A \<noteq> None \<longleftrightarrow>
      get b (js ''title'') \<noteq> []
      \<and> js_or (get b (js ''link'')) (gattr b (js ''link'') (js ''href'')) \<noteq> []
      \<and> (let pd = js_or (get b (js ''pubDate'')) (js_or (get b (js ''dc:date'')) (get b (js ''published'')))
         in pd = [] \<or> dp pd \<noteq> None))
   \<and> (\<forall>a. parseItem_A dp now b src_A = Some a \<longrightarrow>
        title a = decode (get b (js ''title''))
        \<and> link a = js_or (get b (js ''link'')) (gattr b (js ''link'') (js ''href'')))
   \<and> length (parseRSS_A dp clock xml src_A) =
       length (filter (\<lambda>b. parseItem_A dp now b src_A \<noteq> None) (itemBlocks xml))"
proof -
  have 3: "map (\<lambda>a. (title a, link a)) (parseRSS dp clock xml src) =
       map (\<lambda>b. (getTag b (js ''title''), js_or (getTag b (js ''link'')) (getTag b (js ''guid''))))
         (filter (\<lambda>b. parseItem dp now b src \<noteq> None) (itemBlocks xml))"
    unfolding parseRSS_def
    by (rule map_filter_enumerate) (simp_all add: parseItem_None parseItem_fields)
  have "map (\<lambda>a. ()) (parseRSS_A dp clock xml src_A) =
       map (\<lambda>b. ()) (filter (\<lambda>b. parseItem_A dp now b src_A \<noteq> None) (itemBlocks xml))"
    unfolding parseRSS_A_def
    by (rule map_filter_enumerate) (simp_all add: parseItem_A_None)
  then have 6: "length (parseRSS_A dp clock xml src_A) =
       length (filter (\<lambda>b. parseItem_A dp now b src_A \<noteq> None) (itemBlocks xml))"
    by (metis length_map)
  from 3 6 show ?thesis
    using parseItem_emits[of dp now b src] parseItem_fields(1,2)[of dp now b src]
      parseItem_A_emits[of dp now b src_A] parseItem_A_fields[of dp now b src_A]
    by blast
qed

lemma hemp_block_fields:
  "getTag hemp_block (js ''title'') = js ''FL hemp''"
  "getTag hemp_block (js ''link'') = js ''http://x''"
  "getTag hemp_block (js ''pubDate'') = js ''soon''"
  "isRelevant (js ''FL hemp'') (take 280 (strip_markup (getRawTag hemp_block (js ''description''))))"
  by code_simp+

lemma hemp_block_fields_A:
  "get hemp_block (js ''title'') = js ''FL hemp''"
  "get hemp_block (js ''link'') = js ''http://x''"
  "get hemp_block (js ''pubDate'') = js ''soon''"
  by code_simp+

lemma hello_block_fields:
  "getTag hello_block (js ''title'') = js ''Hello''"
  "getTag hello_block (js ''link'') = js ''http://x''"
  "get hello_block (js ''title'') = js ''Hello''"
  "get hello_block (js ''link'') = js ''http://x''"
  "get hello_block (js ''pubDate'') = []"
  "get hello_block (js ''dc:date'') = []"
  "get hello_block (js ''published'') = []"
  by code_simp+

lemma itemBlocks_in_item:
  "itemBlocks (in_item hemp_block) = [hemp_block]"
  "itemBlocks (in_item hello_block) = [hello_block]"
  "itemBlocks (in_item ftp_block) = [ftp_block]"
  by code_simp+

lemma js_or_http: "js_or (js ''http://x'') y = js ''http://x''" "js_or (js ''soon'') y = js ''soon''"
  "js_or [] y = y"
  by (simp_all add: js_or_def js_def)

lemma starts_http: "startsWith (js ''http://x'') (js ''http'')" "js ''FL hemp'' \<noteq> []" "js ''http://x'' \<noteq> []"
  "js ''soon'' \<noteq> []" "js ''Hello'' \<noteq> []"
  by (simp_all add: js_def)

theorem validation_gate_witness:
  "parseItem (date_parse outage) 300000 hemp_block FL_HEMP \<noteq> None
   \<and> map (\<lambda>a. (title a, link a))
        (parseRSS (date_parse outage) (now_item outage (url FL_HEMP)) (in_item hemp_block) FL_HEMP)
       = [(js ''FL hemp'', js ''http://x'')]
   \<and> parseItem_A (date_parse outage) 300000 hello_block LEAFLY \<noteq> None
   \<and> length (parseRSS_A (date_parse outage) (now_item outage (url LEAFLY)) (in_item hello_block) LEAFLY) = 1"
  using validation_gate[of "date_parse outage" 300000 hemp_block FL_HEMP
      "now_item outage (url FL_HEMP)" "in_item hemp_block" LEAFLY]
    validation_gate[of "date_parse outage" 300000 hello_block FL_HEMP
      "now_item outage (url LEAFLY)" "in_item hello_block" LEAFLY]
  by (simp add: hemp_block_fields hello_block_fields itemBlocks_in_item starts_http js_or_http)

text \<open>
  C2 as stated fails both ways. In part\_000 a block with the title "Hello" and the link
  \<open>http://x\<close> passes the three tests of the claim and yields no article (the relevance
  filter rejects it); in news.js (first document) a block whose link is \<open>ftp://x\<close>
  yields an article.
\<close>

theorem validation_gate_counterexample:
  "getTag hello_block (js ''title'') = js ''Hello''
   \<and> getTag hello_block (js ''link'') = js ''http://x''
   \<and> startsWith (js ''http://x'') (js ''http'')
   \<and> parseRSS (date_parse outage) (now_item outage (url FL_HEMP)) (in_item hello_block) FL_HEMP = []
   \<and> get ftp_block (js ''link'') = js ''ftp://x''
   \<and> \<not> startsWith (js ''ftp://x'') (js ''http'')
   \<and> length (parseRSS_A (date_parse outage) (now_item outage (url LEAFLY)) (in_item ftp_block) LEAFLY) = 1"
proof -
  have 1: "parseRSS (date_parse outage) (now_item outage (url FL_HEMP)) (in_item hello_block) FL_HEMP = []"
    by code_simp
  have 2: "get ftp_block (js ''link'') = js ''ftp://x''" by code_simp
  have 3: "\<not> startsWith (js ''ftp://x'') (js ''http'')" by code_simp
  have 4: "length (parseRSS_A (date_parse outage) (now_item outage (url LEAFLY)) (in_item ftp_block) LEAFLY) = 1"
    by code_simp
  from 1 2 3 4 show ?thesis by (simp add: hello_block_fields starts_http)
qed

text \<open>
  C3, as amended. In part\_000 and in news.js (second document) whether a block yields an
  article does not depend on the date parser or the clock, and an article whose date field
  is empty or does not parse has the current time as its \<open>_pubTimestamp\<close>. In news.js
  (first document) a block whose date field is not empty and does not parse yields no
  article.
\<close>

theorem unparsable_date_handling:
  "(parseItem dp now b src = None \<longleftrightarrow> parseItem dp' now' b src = None)
   \<and> (\<forall>a. parseItem dp now b src = Some a
          \<and> (let pd = js_or (getTag b (js ''pubDate'')) (getTag b (js ''dc:date''))
             in pd = [] \<or> dp pd = None)
        \<longrightarrow> u_pubTimestamp a = now)
   \<and> (parseItem_B dp now b lbl = None \<longleftrightarrow> parseItem_B dp' now' b lbl = None)
   \<and> (\<forall>a. parseItem_B dp now b lbl = Some a
          \<and> (let pd = js_or (tag b (js ''pubDate'')) (tag b (js ''dc:date''))
             in pd = [] \<or> dp pd = None)
        \<longrightarrow> u_pubTimestamp a = now)
   \<and> ((let pd = js_or (get b (js ''pubDate'')) (js_or (get b (js ''dc:date'')) (get b (js ''published'')))
        in pd \<noteq> [] \<and> dp pd = None)
      \<longrightarrow> parseItem_A dp now b src_A = None)"
proof -
  have 1: "parseItem dp now b src = None \<longleftrightarrow> parseItem dp' now' b src = None"
    by (simp add: parseItem_None)
  have 2: "\<forall>a. parseItem dp now b src = Some a
          \<and> (let pd = js_or (getTag b (js ''pubDate'')) (getTag b (js ''dc:date''))
             in pd = [] \<or> dp pd = None)
        \<longrightarrow> u_pubTimestamp a = now"
    by (auto simp: parseItem_fields(3) Let_def)
  have 3: "parseItem_B dp now b lbl = None \<longleftrightarrow> parseItem_B dp' now' b lbl = None"
    using parseItem_B_emits[of dp now b lbl] parseItem_B_emits[of dp' now' b lbl] by blast
  have 4: "\<forall>a. parseItem_B dp now b lbl = Some a
          \<and> (let pd = js_or (tag b (js ''pubDate'')) (tag b (js ''dc:date''))
             in pd = [] \<or> dp pd = None)
        \<longrightarrow> u_pubTimestamp a = now"
    by (auto simp: parseItem_B_fields Let_def)
  have 5: "(let pd = js_or (get b (js ''pubDate'')) (js_or (get b (js ''dc:date'')) (get b (js ''published'')))
        in pd \<noteq> [] \<and> dp pd = None)
      \<longrightarrow> parseItem_A dp now b src_A = None"
    by (auto simp: parseItem_A_None Let_def)
  from 1 2 3 4 5 show ?thesis by blast
qed

theorem unparsable_date_handling_witness:
  "map_option u_pubTimestamp (parseItem (date_parse outage) 300000 hemp_block FL_HEMP) = Some 300000
   \<and> parseItem_A (date_parse outage) 300000 hemp_block LEAFLY = None"
proof -
  have "parseItem (date_parse outage) 300000 hemp_block FL_HEMP \<noteq> None"
    unfolding parseItem_emits by (simp add: hemp_block_fields starts_http js_or_http)
  then obtain a where a: "parseItem (date_parse outage) 300000 hemp_block FL_HEMP = Some a" by blast
  have d: "date_parse outage (js ''soon'') = None" by (simp add: outage_def)
  from unparsable_date_handling[of "date_parse outage" 300000 hemp_block FL_HEMP "date_parse outage" 300000
      "label FL_HEMP" LEAFLY] a d
  have "u_pubTimestamp a = 300000" "parseItem_A (date_parse outage) 300000 hemp_block LEAFLY = None"
    by (simp_all add: hemp_block_fields hemp_block_fields_A js_or_http starts_http Let_def)
  with a show ?thesis by simp
qed

text \<open>
  C3 as stated fails in news.js (first document): a block with a title, a link and the
  date "soon", which does not parse, is dropped.
\<close>

theorem date_drop_counterexample:
  "get hemp_block (js ''title'') = js ''FL hemp''
   \<and> get hemp_block (js ''link'') = js ''http://x''
   \<and> get hemp_block (js ''pubDate'') = js ''soon''
   \<and> date_parse outage (js ''soon'') = None
   \<and> parseRSS_A (date_parse outage) (now_item outage (url LEAFLY)) (in_item hemp_block) LEAFLY = []"
proof -
  have "parseRSS_A (date_parse outage) (now_item outage (url LEAFLY)) (in_item hemp_block) LEAFLY = []"
    by code_simp
  then show ?thesis by (simp add: hemp_block_fields_A outage_def)
qed

end
